theory Spec2Isabelle
  imports Main
begin

section \<open>JavaScript values and string primitives\<close>

text \<open>
  A JavaScript string is modelled as a \<^typ>\<open>string\<close> whose characters are code units
  below 256 (Latin-1); numbers that hold identifiers, counters and limits are unbounded
  integers (the source's doubles are exact below \<open>2 ^ 53\<close>). An optional value
  (\<open>undefined\<close> or \<open>null\<close>) is \<open>None\<close>.
\<close>

definition truthy :: "string option \<Rightarrow> bool" where
  \<comment> \<open>the truth value of an optional string: \<open>undefined\<close>, \<open>null\<close> and \<open>""\<close> are falsy\<close>
  "truthy s = (case s of None \<Rightarrow> False | Some x \<Rightarrow> x \<noteq> [])"

definition or_null :: "string option \<Rightarrow> string option" where
  \<comment> \<open>\<open>s || null\<close>\<close>
  "or_null s = (if truthy s then s else None)"

definition or_false :: "bool option \<Rightarrow> bool" where
  \<comment> \<open>\<open>b || false\<close>\<close>
  "or_false b = (case b of None \<Rightarrow> False | Some x \<Rightarrow> x)"

definition is_space :: "char \<Rightarrow> bool" where
  \<comment> \<open>the class \<open>\s\<close>, also what \<open>trim\<close> and \<open>parseInt\<close> strip: TAB, LF, VT, FF, CR,
      space and the no-break space\<close>
  "is_space c = (c \<in> set [CHR 0x09, CHR 0x0A, CHR 0x0B, CHR 0x0C, CHR 0x0D, CHR 0x20, CHR 0xA0])"

definition is_line_end :: "char \<Rightarrow> bool" where
  \<comment> \<open>the characters that \<open>.\<close> does not match\<close>
  "is_line_end c = (c = CHR 0x0A \<or> c = CHR 0x0D)"

definition is_digit :: "char \<Rightarrow> bool" where
  \<comment> \<open>the class \<open>\d\<close>\<close>
  "is_digit c = (c \<in> set ''0123456789'')"

definition dot_run :: "string \<Rightarrow> string" where
  \<comment> \<open>what a greedy \<open>.*\<close> takes at the start of a string\<close>
  "dot_run s = takeWhile (\<lambda>c. \<not> is_line_end c) s"

definition trim :: "string \<Rightarrow> string" where
  "trim s = rev (dropWhile is_space (rev (dropWhile is_space s)))"

fun starts_with :: "string \<Rightarrow> string \<Rightarrow> bool" where
  "starts_with [] s = True"
| "starts_with (p # ps) [] = False"
| "starts_with (p # ps) (c # cs) = (p = c \<and> starts_with ps cs)"

subsection \<open>Number to string and string to number\<close>

definition digit_char :: "nat \<Rightarrow> char" where
  \<comment> \<open>the digit for a value below 10\<close>
  "digit_char d = ''0123456789'' ! d"

fun digits_of :: "nat \<Rightarrow> string" where
  "digits_of n = (if n < 10 then [digit_char n] else digits_of (n div 10) @ [digit_char (n mod 10)])"

declare digits_of.simps [simp del]

definition toString :: "int \<Rightarrow> string" where
  \<comment> \<open>\<open>Number.prototype.toString\<close> on an integer, in decimal\<close>
  "toString i = (if i < 0 then CHR ''-'' # digits_of (nat (- i)) else digits_of (nat i))"

definition digit_value :: "char \<Rightarrow> nat option" where
  \<comment> \<open>the value of a digit in radix 16 (\<open>0-9\<close>, \<open>a-f\<close>, \<open>A-F\<close>)\<close>
  "digit_value c =
     (let n = (of_char c :: nat) in
      if 48 \<le> n \<and> n \<le> 57 then Some (n - 48)
      else if 97 \<le> n \<and> n \<le> 102 then Some (n - 87)
      else if 65 \<le> n \<and> n \<le> 70 then Some (n - 55)
      else None)"

definition is_radix_digit :: "nat \<Rightarrow> char \<Rightarrow> bool" where
  "is_radix_digit r c = (case digit_value c of None \<Rightarrow> False | Some v \<Rightarrow> v < r)"

fun digits_value :: "nat \<Rightarrow> nat \<Rightarrow> string \<Rightarrow> nat" where
  "digits_value r acc [] = acc"
| "digits_value r acc (c # cs) =
     digits_value r (acc * r + (case digit_value c of None \<Rightarrow> 0 | Some v \<Rightarrow> v)) cs"

definition parseInt :: "string \<Rightarrow> int option" where
  \<comment> \<open>\<open>parseInt(s)\<close> with no radix; \<open>None\<close> is \<open>NaN\<close>. Leading white space is skipped, a sign
      is read, a \<open>0x\<close> prefix selects radix 16, and the longest run of digits is taken.\<close>
  "parseInt s =
     (let s1 = dropWhile is_space s;
          neg = starts_with ''-'' s1;
          s2 = (if starts_with ''-'' s1 \<or> starts_with ''+'' s1 then drop 1 s1 else s1);
          hex = (starts_with ''0x'' s2 \<or> starts_with ''0X'' s2);
          r = (if hex then 16 else 10);
          s3 = (if hex then drop 2 s2 else s2);
          ds = takeWhile (is_radix_digit r) s3
      in if ds = [] then None
         else Some ((if neg then - 1 else 1) * int (digits_value r 0 ds)))"

section \<open>Data model\<close>

text \<open>The sender of a message as the gateway supplies it (\<open>msg.from\<close>); every field but the
  identifier may be absent.\<close>

record tg_user =
  tg_id :: int
  tg_is_bot :: "bool option"
  tg_first_name :: "string option"
  tg_last_name :: "string option"
  tg_username :: "string option"
  tg_language_code :: "string option"
  tg_is_premium :: "bool option"

record message =
  msg_from :: tg_user
  msg_chat_id :: int
  msg_text :: string

text \<open>The two collections of the store. Dates are milliseconds since the epoch.\<close>

record User =
  userId :: int
  username :: "string option"
  firstName :: "string option"
  lastName :: "string option"
  languageCode :: "string option"
  isBot :: bool
  isPremium :: bool
  firstSeen :: int
  lastActive :: int
  totalInteractions :: int
  wallpapersViewed :: "string list"

record LinkClick =
  lc_wallpaperId :: string
  lc_userId :: int
  lc_username :: "string option"
  lc_timestamp :: int

text \<open>The texts the bot sends. A template of the source is a constructor that carries the
  values interpolated into it.\<close>

datatype reply =
    Welcome "string option"
  | Unauthorized
  | StatsReply nat nat nat nat nat nat
  | StatsError
  | NoClicks
  | TopLinksReply int "(string \<times> nat) list"
  | TopLinksError
  | NoUsers
  | RecentUsersReply int "User list"
  | RecentUsersError
  | Usage
  | InvalidUserId
  | UserNotFound
  | UserInfoReply User nat
  | UserInfoError
  | BroadcastStart nat
  | BroadcastText string
  | BroadcastDone nat nat
  | BroadcastError
  | AdminHelp

text \<open>What the process does to the outside, in order: a \<open>sendMessage\<close> that the gateway
  accepted or refused, and a timer wait in milliseconds.\<close>

datatype event = Sent int reply | SendFailed int reply | Delay nat

text \<open>The environment: the configured admin identifier; the two calendar operations of
  the runtime's \<open>Date\<close>, whose results depend on the zone rules of the host (offsets,
  daylight saving) and are therefore taken as they come: \<open>local_midnight t\<close> is the date
  that \<open>d.setHours(0, 0, 0, 0)\<close> leaves in a \<open>d\<close> holding \<open>t\<close>, and \<open>days_before n t\<close> the
  date that \<open>d.setDate(d.getDate() - n)\<close> leaves; and whether the n-th store operation and
  the n-th \<open>sendMessage\<close> succeed.\<close>

record env =
  ADMIN_USER_ID :: "string option"
  local_midnight :: "int \<Rightarrow> int"
  days_before :: "int \<Rightarrow> int \<Rightarrow> int"
  db_ok :: "nat \<Rightarrow> bool"
  send_ok :: "nat \<Rightarrow> bool"

record world =
  users :: "User list"
  clicks :: "LinkClick list"
  clock :: int
  db_ops :: nat
  send_ops :: nat
  trace :: "event list"

datatype outcome = Returned | Rejected

section \<open>Store and gateway operations\<close>

definition db_op :: "env \<Rightarrow> world \<Rightarrow> bool \<times> world" where
  \<comment> \<open>one round trip to the store: it is counted, and it succeeds or throws\<close>
  "db_op e w = (db_ok e (db_ops w), w\<lparr>db_ops := Suc (db_ops w)\<rparr>)"

definition sendMessage :: "env \<Rightarrow> world \<Rightarrow> int \<Rightarrow> reply \<Rightarrow> bool \<times> world" where
  "sendMessage e w chat r =
     (let ok = send_ok e (send_ops w)
      in (ok, w\<lparr>send_ops := Suc (send_ops w),
                trace := trace w @ [if ok then Sent chat r else SendFailed chat r]\<rparr>))"

definition delay :: "nat \<Rightarrow> world \<Rightarrow> world" where
  "delay ms w = w\<lparr>clock := clock w + int ms, trace := trace w @ [Delay ms]\<rparr>"

fun find_index_of :: "('a \<Rightarrow> bool) \<Rightarrow> 'a list \<Rightarrow> nat option" where
  "find_index_of P [] = None"
| "find_index_of P (x # xs) =
     (if P x then Some 0 else map_option Suc (find_index_of P xs))"

section \<open>User Tracker\<close>

definition add_viewed :: "string option \<Rightarrow> string list \<Rightarrow> string list" where
  \<comment> \<open>\<open>if (wallpaperId && !viewed.includes(wallpaperId)) viewed.push(wallpaperId)\<close>\<close>
  "add_viewed wallpaperId viewed =
     (case wallpaperId of
        None \<Rightarrow> viewed
      | Some x \<Rightarrow> if x \<noteq> [] \<and> x \<notin> set viewed then viewed @ [x] else viewed)"

definition update_user :: "world \<Rightarrow> tg_user \<Rightarrow> string option \<Rightarrow> User \<Rightarrow> User" where
  \<comment> \<open>the assignments of the update branch\<close>
  "update_user w user wallpaperId userData =
     userData\<lparr>username := or_null (tg_username user),
              firstName := or_null (tg_first_name user),
              lastName := or_null (tg_last_name user),
              languageCode := or_null (tg_language_code user),
              isPremium := or_false (tg_is_premium user),
              lastActive := clock w,
              totalInteractions := totalInteractions userData + 1,
              wallpapersViewed := add_viewed wallpaperId (wallpapersViewed userData)\<rparr>"

definition new_user :: "world \<Rightarrow> tg_user \<Rightarrow> string option \<Rightarrow> User" where
  \<comment> \<open>\<open>new User({...})\<close> with the schema's defaults for the fields left out\<close>
  "new_user w user wallpaperId =
     \<lparr>userId = tg_id user,
      username = or_null (tg_username user),
      firstName = or_null (tg_first_name user),
      lastName = or_null (tg_last_name user),
      languageCode = or_null (tg_language_code user),
      isBot = or_false (tg_is_bot user),
      isPremium = or_false (tg_is_premium user),
      firstSeen = clock w,
      lastActive = clock w,
      totalInteractions = 1,
      wallpapersViewed = (case wallpaperId of None \<Rightarrow> [] | Some x \<Rightarrow> if x \<noteq> [] then [x] else [])\<rparr>"

definition saveUserData :: "env \<Rightarrow> world \<Rightarrow> message \<Rightarrow> string option \<Rightarrow> User option \<times> world" where
  \<comment> \<open>a store error at \<open>findOne\<close> or at \<open>save\<close> is caught: nothing is written and
      \<open>undefined\<close> is returned\<close>
  "saveUserData e w msg wallpaperId =
     (let user = msg_from msg;
          (found_ok, w1) = db_op e w
      in if \<not> found_ok then (None, w1)
         else (case find_index_of (\<lambda>d. userId d = tg_id user) (users w1) of
                 Some i \<Rightarrow>
                   (let userData = update_user w1 user wallpaperId (users w1 ! i);
                        (saved, w2) = db_op e w1
                    in if saved then (Some userData, w2\<lparr>users := (users w2)[i := userData]\<rparr>)
                       else (None, w2))
               | None \<Rightarrow>
                   (let userData = new_user w1 user wallpaperId;
                        (saved, w2) = db_op e w1
                    in if saved then (Some userData, w2\<lparr>users := users w2 @ [userData]\<rparr>)
                       else (None, w2))))"

definition trackLinkClick :: "env \<Rightarrow> world \<Rightarrow> int \<Rightarrow> string option \<Rightarrow> string \<Rightarrow> world" where
  \<comment> \<open>the schema requires \<open>wallpaperId\<close>: an empty one fails validation before the store
      is reached; every error is caught\<close>
  "trackLinkClick e w uid uname wallpaperId =
     (if wallpaperId = [] then w
      else (let (saved, w1) = db_op e w
            in if saved
               then w1\<lparr>clicks := clicks w1 @
                      [\<lparr>lc_wallpaperId = wallpaperId, lc_userId = uid,
                        lc_username = or_null uname, lc_timestamp = clock w1\<rparr>]\<rparr>
               else w1))"

fun recordInteractions :: "env \<Rightarrow> world \<Rightarrow> (message \<times> string option) list \<Rightarrow> world" where
  \<comment> \<open>a sequence of \<open>saveUserData\<close> calls, one after the other\<close>
  "recordInteractions e w [] = w"
| "recordInteractions e w (x # xs) =
     recordInteractions e (snd (saveUserData e w (fst x) (snd x))) xs"

section \<open>Command Router\<close>

text \<open>
  \<open>bot.onText(re, handler)\<close> registers a pattern; for a text message the library runs
  \<open>re.exec(text)\<close> for every registered pattern, in the order of registration, and calls
  the handler of each pattern that matches with the match array. None of the patterns is
  anchored, so \<open>exec\<close> finds the leftmost position where the pattern matches.
\<close>

fun search :: "(string \<Rightarrow> 'a option) \<Rightarrow> string \<Rightarrow> 'a option" where
  \<comment> \<open>the leftmost position at which the matcher succeeds\<close>
  "search m [] = m []"
| "search m (c # cs) = (case m (c # cs) of Some r \<Rightarrow> Some r | None \<Rightarrow> search m cs)"

definition at_start :: "string \<Rightarrow> string option" where
  \<comment> \<open>\<open>/\/start(.*)/\<close>: group 1\<close>
  "at_start s = (if starts_with ''/start'' s then Some (dot_run (drop 6 s)) else None)"

definition at_stats :: "string \<Rightarrow> unit option" where
  \<comment> \<open>\<open>/\/stats/\<close>\<close>
  "at_stats s = (if starts_with ''/stats'' s then Some () else None)"

definition opt_number :: "string \<Rightarrow> string option" where
  \<comment> \<open>\<open>(?:\s+(\d+))?\<close>: group 1, \<open>None\<close> when the group does not take part. A digit is not
      white space, so only the longest run of white space can be followed by \<open>\d+\<close>.\<close>
  "opt_number s =
     (let r = dropWhile is_space s; d = takeWhile is_digit r
      in if length r < length s \<and> d \<noteq> [] then Some d else None)"

fun opt_rest_from :: "nat \<Rightarrow> string \<Rightarrow> string option" where
  \<comment> \<open>\<open>\s+(.+)\<close> with \<open>\s+\<close> taking at most \<open>j\<close> characters: the regular expression
      engine tries the longest run of white space first and gives characters back one at
      a time until \<open>.+\<close> finds a character to match\<close>
  "opt_rest_from 0 s = None"
| "opt_rest_from (Suc j) s =
     (if dot_run (drop (Suc j) s) \<noteq> [] then Some (dot_run (drop (Suc j) s))
      else opt_rest_from j s)"

definition opt_rest :: "string \<Rightarrow> string option" where
  \<comment> \<open>\<open>(?:\s+(.+))?\<close>: group 1\<close>
  "opt_rest s = opt_rest_from (length (takeWhile is_space s)) s"

definition at_toplinks :: "string \<Rightarrow> string option option" where
  \<comment> \<open>\<open>/\/toplinks(?:\s+(\d+))?/\<close>\<close>
  "at_toplinks s = (if starts_with ''/toplinks'' s then Some (opt_number (drop 9 s)) else None)"

definition at_recentusers :: "string \<Rightarrow> string option option" where
  \<comment> \<open>\<open>/\/recentusers(?:\s+(\d+))?/\<close>\<close>
  "at_recentusers s =
     (if starts_with ''/recentusers'' s then Some (opt_number (drop 12 s)) else None)"

definition at_userinfo :: "string \<Rightarrow> string option option" where
  \<comment> \<open>\<open>/\/userinfo(?:\s+(.+))?/\<close>\<close>
  "at_userinfo s = (if starts_with ''/userinfo'' s then Some (opt_rest (drop 9 s)) else None)"

definition at_broadcast :: "string \<Rightarrow> string option" where
  \<comment> \<open>\<open>/\/broadcast (.+)/\<close>: one space, then at least one character of the same line\<close>
  "at_broadcast s =
     (if starts_with ''/broadcast '' s \<and> dot_run (drop 11 s) \<noteq> []
      then Some (dot_run (drop 11 s)) else None)"

definition at_adminhelp :: "string \<Rightarrow> unit option" where
  \<comment> \<open>\<open>/\/adminhelp/\<close>\<close>
  "at_adminhelp s = (if starts_with ''/adminhelp'' s then Some () else None)"

text \<open>A matched pattern with its capture (\<open>match[1]\<close>).\<close>

datatype command =
    CmdStart string
  | CmdStats
  | CmdTopLinks "string option"
  | CmdRecentUsers "string option"
  | CmdUserInfo "string option"
  | CmdBroadcast string
  | CmdAdminHelp

definition route :: "string \<Rightarrow> command list" where
  "route t =
     (case search at_start t of Some c \<Rightarrow> [CmdStart c] | None \<Rightarrow> []) @
     (case search at_stats t of Some _ \<Rightarrow> [CmdStats] | None \<Rightarrow> []) @
     (case search at_toplinks t of Some c \<Rightarrow> [CmdTopLinks c] | None \<Rightarrow> []) @
     (case search at_recentusers t of Some c \<Rightarrow> [CmdRecentUsers c] | None \<Rightarrow> []) @
     (case search at_userinfo t of Some c \<Rightarrow> [CmdUserInfo c] | None \<Rightarrow> []) @
     (case search at_broadcast t of Some c \<Rightarrow> [CmdBroadcast c] | None \<Rightarrow> []) @
     (case search at_adminhelp t of Some _ \<Rightarrow> [CmdAdminHelp] | None \<Rightarrow> [])"

section \<open>Handlers\<close>

definition unauthorized :: "env \<Rightarrow> int \<Rightarrow> bool" where
  \<comment> \<open>\<open>ADMIN_USER_ID && userId.toString() !== ADMIN_USER_ID\<close>\<close>
  "unauthorized e uid = (truthy (ADMIN_USER_ID e) \<and> Some (toString uid) \<noteq> ADMIN_USER_ID e)"

definition reply_return :: "env \<Rightarrow> world \<Rightarrow> int \<Rightarrow> reply \<Rightarrow> outcome \<times> world" where
  \<comment> \<open>\<open>await bot.sendMessage(...); return\<close> outside every \<open>try\<close>: a refused send rejects
      the handler's promise\<close>
  "reply_return e w chat r =
     (let (ok, w1) = sendMessage e w chat r in (if ok then Returned else Rejected, w1))"

definition catch_reply :: "env \<Rightarrow> bool \<times> world \<Rightarrow> int \<Rightarrow> reply \<Rightarrow> outcome \<times> world" where
  \<comment> \<open>\<open>try { body } catch (error) { await bot.sendMessage(chatId, text) }\<close>; the body's
      flag is \<open>False\<close> when it threw\<close>
  "catch_reply e r chat err =
     (case r of (True, w) \<Rightarrow> (Returned, w) | (False, w) \<Rightarrow> reply_return e w chat err)"

definition and_then :: "'a option \<times> world \<Rightarrow> ('a \<Rightarrow> world \<Rightarrow> bool \<times> world) \<Rightarrow> bool \<times> world" where
  \<comment> \<open>inside a \<open>try\<close>: an awaited store call that threw (\<open>None\<close>) ends the body\<close>
  "and_then r k = (case r of (None, w) \<Rightarrow> (False, w) | (Some x, w) \<Rightarrow> k x w)"

definition countDocuments :: "env \<Rightarrow> world \<Rightarrow> 'a list \<Rightarrow> ('a \<Rightarrow> bool) \<Rightarrow> nat option \<times> world" where
  "countDocuments e w docs P =
     (let (ok, w1) = db_op e w in (if ok then Some (length (filter P docs)) else None, w1))"

definition findOne :: "env \<Rightarrow> world \<Rightarrow> 'a list \<Rightarrow> ('a \<Rightarrow> bool) \<Rightarrow> 'a option option \<times> world" where
  "findOne e w docs P =
     (let (ok, w1) = db_op e w in (if ok then Some (find P docs) else None, w1))"

subsection \<open>/start\<close>

definition start_handler :: "env \<Rightarrow> world \<Rightarrow> message \<Rightarrow> string \<Rightarrow> outcome \<times> world" where
  \<comment> \<open>the send is inside a \<open>try\<close> whose \<open>catch\<close> only logs\<close>
  "start_handler e w msg cap =
     (let chatId = msg_chat_id msg;
          startParam = trim cap;
          wallpaperId = (if startParam \<noteq> [] then Some startParam else None);
          w1 = snd (saveUserData e w msg wallpaperId);
          w2 = (case wallpaperId of
                  None \<Rightarrow> w1
                | Some wid \<Rightarrow>
                    trackLinkClick e w1 (tg_id (msg_from msg)) (tg_username (msg_from msg)) wid);
          w3 = snd (sendMessage e w2 chatId (Welcome wallpaperId))
      in (Returned, w3))"

subsection \<open>/stats\<close>

definition stats_try :: "env \<Rightarrow> world \<Rightarrow> int \<Rightarrow> bool \<times> world" where
  "stats_try e w chatId =
     and_then (countDocuments e w (users w) (\<lambda>u. True)) (\<lambda>totalUsers w1.
     let today = local_midnight e (clock w1) in
     and_then (countDocuments e w1 (users w1) (\<lambda>u. today \<le> firstSeen u)) (\<lambda>newUsersToday w2.
     let last7Days = days_before e 7 (clock w2) in
     and_then (countDocuments e w2 (users w2) (\<lambda>u. last7Days \<le> firstSeen u)) (\<lambda>newUsersWeek w3.
     let last30Days = days_before e 30 (clock w3) in
     and_then (countDocuments e w3 (users w3) (\<lambda>u. last30Days \<le> firstSeen u)) (\<lambda>newUsersMonth w4.
     and_then (countDocuments e w4 (users w4) isPremium) (\<lambda>premiumUsers w5.
     and_then (countDocuments e w5 (clicks w5) (\<lambda>c. True)) (\<lambda>totalClicks w6.
     sendMessage e w6 chatId
       (StatsReply totalUsers newUsersToday newUsersWeek newUsersMonth premiumUsers
          totalClicks)))))))"

definition stats_handler :: "env \<Rightarrow> world \<Rightarrow> message \<Rightarrow> outcome \<times> world" where
  "stats_handler e w msg =
     (let chatId = msg_chat_id msg; uid = tg_id (msg_from msg)
      in if unauthorized e uid then reply_return e w chatId Unauthorized
         else catch_reply e (stats_try e w chatId) chatId StatsError)"

subsection \<open>/toplinks and /recentusers\<close>

definition parse_limit :: "string option \<Rightarrow> int" where
  \<comment> \<open>\<open>parseInt(match[1]) || 10\<close>: \<open>NaN\<close> and \<open>0\<close> are falsy\<close>
  "parse_limit cap =
     (case cap of
        None \<Rightarrow> 10
      | Some s \<Rightarrow> (case parseInt s of None \<Rightarrow> 10 | Some n \<Rightarrow> if n = 0 then 10 else n))"

definition group_stage :: "LinkClick list \<Rightarrow> (string \<times> nat) list" where
  \<comment> \<open>\<open>{ $group: { _id: '$wallpaperId', clicks: { $sum: 1 } } }\<close>: one row for each
      wallpaper id that occurs, with the number of its documents\<close>
  "group_stage docs =
     map (\<lambda>k. (k, length (filter (\<lambda>d. lc_wallpaperId d = k) docs)))
       (remdups (map lc_wallpaperId docs))"

definition sort_stage :: "(string \<times> nat) list \<Rightarrow> (string \<times> nat) list" where
  \<comment> \<open>\<open>{ $sort: { clicks: -1 } }\<close>; the store does not fix the order of rows with equal
      counts, the model keeps the order they have\<close>
  "sort_stage rows = sort_key (\<lambda>r. - int (snd r)) rows"

definition limit_stage :: "int \<Rightarrow> 'a list \<Rightarrow> 'a list" where
  \<comment> \<open>\<open>{ $limit: limit }\<close> and \<open>.limit(limit)\<close>\<close>
  "limit_stage n rows = take (nat n) rows"

definition aggregate_top :: "env \<Rightarrow> world \<Rightarrow> int \<Rightarrow> (string \<times> nat) list option \<times> world" where
  "aggregate_top e w limit =
     (let (ok, w1) = db_op e w
      in (if ok then Some (limit_stage limit (sort_stage (group_stage (clicks w1)))) else None,
          w1))"

definition toplinks_try :: "env \<Rightarrow> world \<Rightarrow> int \<Rightarrow> int \<Rightarrow> bool \<times> world" where
  "toplinks_try e w chatId limit =
     and_then (aggregate_top e w limit) (\<lambda>topLinks w1.
       if length topLinks = 0 then sendMessage e w1 chatId NoClicks
       else sendMessage e w1 chatId (TopLinksReply limit topLinks))"

definition toplinks_handler :: "env \<Rightarrow> world \<Rightarrow> message \<Rightarrow> string option \<Rightarrow> outcome \<times> world" where
  "toplinks_handler e w msg cap =
     (let chatId = msg_chat_id msg; uid = tg_id (msg_from msg); limit = parse_limit cap
      in if unauthorized e uid then reply_return e w chatId Unauthorized
         else catch_reply e (toplinks_try e w chatId limit) chatId TopLinksError)"

definition find_recent :: "env \<Rightarrow> world \<Rightarrow> int \<Rightarrow> User list option \<times> world" where
  \<comment> \<open>\<open>User.find().sort({ firstSeen: -1 }).limit(limit)\<close>\<close>
  "find_recent e w limit =
     (let (ok, w1) = db_op e w
      in (if ok then Some (limit_stage limit (sort_key (\<lambda>u. - firstSeen u) (users w1))) else None,
          w1))"

definition recentusers_try :: "env \<Rightarrow> world \<Rightarrow> int \<Rightarrow> int \<Rightarrow> bool \<times> world" where
  "recentusers_try e w chatId limit =
     and_then (find_recent e w limit) (\<lambda>recentUsers w1.
       if length recentUsers = 0 then sendMessage e w1 chatId NoUsers
       else sendMessage e w1 chatId (RecentUsersReply limit recentUsers))"

definition recentusers_handler :: "env \<Rightarrow> world \<Rightarrow> message \<Rightarrow> string option \<Rightarrow> outcome \<times> world" where
  "recentusers_handler e w msg cap =
     (let chatId = msg_chat_id msg; uid = tg_id (msg_from msg); limit = parse_limit cap
      in if unauthorized e uid then reply_return e w chatId Unauthorized
         else catch_reply e (recentusers_try e w chatId limit) chatId RecentUsersError)"

subsection \<open>/userinfo\<close>

definition userinfo_show :: "env \<Rightarrow> world \<Rightarrow> int \<Rightarrow> User option \<Rightarrow> bool \<times> world" where
  \<comment> \<open>from \<open>if (!user)\<close> to the end of the \<open>try\<close> block\<close>
  "userinfo_show e w chatId user =
     (case user of
        None \<Rightarrow> sendMessage e w chatId UserNotFound
      | Some u \<Rightarrow>
          and_then (countDocuments e w (clicks w) (\<lambda>c. lc_userId c = userId u)) (\<lambda>clickCount w1.
            sendMessage e w1 chatId (UserInfoReply u clickCount)))"

definition userinfo_try :: "env \<Rightarrow> world \<Rightarrow> int \<Rightarrow> string \<Rightarrow> bool \<times> world" where
  "userinfo_try e w chatId query =
     (if starts_with ''@'' query
      then and_then (findOne e w (users w) (\<lambda>u. username u = Some (drop 1 query)))
             (\<lambda>user w1. userinfo_show e w1 chatId user)
      else (case parseInt query of
              None \<Rightarrow> sendMessage e w chatId InvalidUserId
            | Some userIdNum \<Rightarrow>
                and_then (findOne e w (users w) (\<lambda>u. userId u = userIdNum))
                  (\<lambda>user w1. userinfo_show e w1 chatId user)))"

definition userinfo_handler :: "env \<Rightarrow> world \<Rightarrow> message \<Rightarrow> string option \<Rightarrow> outcome \<times> world" where
  "userinfo_handler e w msg cap =
     (let chatId = msg_chat_id msg; uid = tg_id (msg_from msg)
      in if unauthorized e uid then reply_return e w chatId Unauthorized
         else (case cap of
                 None \<Rightarrow> reply_return e w chatId Usage
               | Some query \<Rightarrow>
                   if query = [] then reply_return e w chatId Usage
                   else catch_reply e (userinfo_try e w chatId query) chatId UserInfoError))"

subsection \<open>/broadcast\<close>

fun broadcast_loop ::
  "env \<Rightarrow> world \<Rightarrow> string \<Rightarrow> int list \<Rightarrow> nat \<Rightarrow> nat \<Rightarrow> (nat \<times> nat) \<times> world" where
  \<comment> \<open>\<open>for (const user of users)\<close> with its inner \<open>try\<close>: the wait of 50 ms follows a
      send that succeeded; a send that threw is counted and the loop goes on\<close>
  "broadcast_loop e w message [] successCount failCount = ((successCount, failCount), w)"
| "broadcast_loop e w message (u # us) successCount failCount =
     (let (ok, w1) = sendMessage e w u (BroadcastText message)
      in if ok then broadcast_loop e (delay 50 w1) message us (Suc successCount) failCount
         else broadcast_loop e w1 message us successCount (Suc failCount))"

definition find_userIds :: "env \<Rightarrow> world \<Rightarrow> int list option \<times> world" where
  \<comment> \<open>\<open>User.find({}, 'userId')\<close>\<close>
  "find_userIds e w =
     (let (ok, w1) = db_op e w in (if ok then Some (map userId (users w1)) else None, w1))"

definition broadcast_try :: "env \<Rightarrow> world \<Rightarrow> int \<Rightarrow> string \<Rightarrow> bool \<times> world" where
  "broadcast_try e w chatId message =
     and_then (find_userIds e w) (\<lambda>us w1.
       let (started, w2) = sendMessage e w1 chatId (BroadcastStart (length us))
       in if \<not> started then (False, w2)
          else (let (tally, w3) = broadcast_loop e w2 message us 0 0
                in sendMessage e w3 chatId (BroadcastDone (fst tally) (snd tally))))"

definition broadcast_handler :: "env \<Rightarrow> world \<Rightarrow> message \<Rightarrow> string \<Rightarrow> outcome \<times> world" where
  "broadcast_handler e w msg message =
     (let chatId = msg_chat_id msg; uid = tg_id (msg_from msg)
      in if unauthorized e uid then reply_return e w chatId Unauthorized
         else catch_reply e (broadcast_try e w chatId message) chatId BroadcastError)"

subsection \<open>/adminhelp\<close>

definition adminhelp_handler :: "env \<Rightarrow> world \<Rightarrow> message \<Rightarrow> outcome \<times> world" where
  "adminhelp_handler e w msg =
     (let chatId = msg_chat_id msg; uid = tg_id (msg_from msg)
      in if unauthorized e uid then (Returned, w)
         else reply_return e w chatId AdminHelp)"

subsection \<open>Dispatch\<close>

fun run_handler :: "env \<Rightarrow> world \<Rightarrow> message \<Rightarrow> command \<Rightarrow> outcome \<times> world" where
  "run_handler e w msg (CmdStart cap) = start_handler e w msg cap"
| "run_handler e w msg CmdStats = stats_handler e w msg"
| "run_handler e w msg (CmdTopLinks cap) = toplinks_handler e w msg cap"
| "run_handler e w msg (CmdRecentUsers cap) = recentusers_handler e w msg cap"
| "run_handler e w msg (CmdUserInfo cap) = userinfo_handler e w msg cap"
| "run_handler e w msg (CmdBroadcast message) = broadcast_handler e w msg message"
| "run_handler e w msg CmdAdminHelp = adminhelp_handler e w msg"

fun run_all :: "env \<Rightarrow> world \<Rightarrow> message \<Rightarrow> command list \<Rightarrow> outcome list \<times> world" where
  \<comment> \<open>the handlers of the patterns that matched, one after the other (how they interleave
      at their awaits is not modelled)\<close>
  "run_all e w msg [] = ([], w)"
| "run_all e w msg (c # cs) =
     (let (r, w1) = run_handler e w msg c; (rs, w2) = run_all e w1 msg cs in (r # rs, w2))"

definition processUpdate :: "env \<Rightarrow> world \<Rightarrow> message \<Rightarrow> outcome list \<times> world" where
  "processUpdate e w msg = run_all e w msg (route (msg_text msg))"

fun is_admin_command :: "command \<Rightarrow> bool" where
  "is_admin_command (CmdStart cap) = False"
| "is_admin_command c = True"

section \<open>Sample inputs\<close>

text \<open>Concrete environments, senders and stores on which the theorems below are run.\<close>

definition sample_env :: "string option \<Rightarrow> env" where
  \<comment> \<open>a store and a gateway that always answer, on a host in UTC\<close>
  "sample_env admin =
     \<lparr>ADMIN_USER_ID = admin,
      local_midnight = (\<lambda>t. t - t mod 86400000),
      days_before = (\<lambda>n t. t - n * 86400000),
      db_ok = (\<lambda>n. True), send_ok = (\<lambda>n. True)\<rparr>"

definition sample_sender :: "int \<Rightarrow> tg_user" where
  "sample_sender uid =
     \<lparr>tg_id = uid, tg_is_bot = Some False, tg_first_name = Some ''Ada'', tg_last_name = None,
      tg_username = Some ''ada'', tg_language_code = Some ''en'', tg_is_premium = None\<rparr>"

definition sample_msg :: "int \<Rightarrow> string \<Rightarrow> message" where
  "sample_msg uid t = \<lparr>msg_from = sample_sender uid, msg_chat_id = uid, msg_text = t\<rparr>"

definition sample_world :: "User list \<Rightarrow> LinkClick list \<Rightarrow> world" where
  "sample_world us cs =
     \<lparr>users = us, clicks = cs, clock = 1000, db_ops = 0, send_ops = 0, trace = []\<rparr>"

definition sample_user :: "int \<Rightarrow> int \<Rightarrow> User" where
  \<comment> \<open>a stored record with the given identifier and first-seen date\<close>
  "sample_user uid t =
     \<lparr>userId = uid, username = Some ''bob'', firstName = Some ''Bob'', lastName = None,
      languageCode = None, isBot = False, isPremium = False, firstSeen = t, lastActive = t,
      totalInteractions = 1, wallpapersViewed = []\<rparr>"

definition sample_click :: "string \<Rightarrow> LinkClick" where
  "sample_click k = \<lparr>lc_wallpaperId = k, lc_userId = 7, lc_username = None, lc_timestamp = 0\<rparr>"

definition sample_interactions :: "(message \<times> string option) list" where
  \<comment> \<open>four interactions of sender 7: wallpaper \<open>a\<close> twice, none once, \<open>b\<close> once\<close>
  "sample_interactions =
     [(sample_msg 7 ''/start a'', Some ''a''), (sample_msg 7 ''/start'', None),
      (sample_msg 7 ''/start a'', Some ''a''), (sample_msg 7 ''/start b'', Some ''b'')]"

definition bot_sender :: tg_user where
  \<comment> \<open>sender 7 as the gateway would report it with the bot flag set\<close>
  "bot_sender = (sample_sender 7)\<lparr>tg_is_bot := Some True, tg_username := Some ''robo''\<rparr>"

definition fixture :: "LinkClick list" where
  \<comment> \<open>twelve clicks: \<open>A\<close> five times, \<open>B\<close> and \<open>C\<close> three times each, \<open>D\<close> once\<close>
  "fixture = map sample_click
     [''D'', ''B'', ''A'', ''C'', ''A'', ''B'', ''C'', ''A'', ''A'', ''B'', ''C'', ''A'']"


definition ny_midnight :: "int \<Rightarrow> int" where
  \<comment> \<open>the start of the local day in New York around 10 March 2024: that day starts at
      05:00Z (midnight EST, 1710046800000) and has 23 hours; the days before are on EST,
      the days after on EDT\<close>
  "ny_midnight t =
     (if t < 1710046800000 then t - (t - 18000000) mod 86400000
      else if t < 1710129600000 then 1710046800000
      else t - (t - 14400000) mod 86400000)"

definition ny_days_before :: "int \<Rightarrow> int \<Rightarrow> int" where
  \<comment> \<open>the same wall time \<open>n\<close> days earlier in New York, for dates of the winter and summer
      around the change of 10 March 2024, 07:00Z (1710054000000): going back across the
      change the day of 23 hours is passed\<close>
  "ny_days_before n t =
     (if 1710054000000 \<le> t \<and> t - n * 86400000 + 3600000 < 1710054000000
      then t - n * 86400000 + 3600000 else t - n * 86400000)"

definition ny_env :: env where
  \<comment> \<open>no admin configured, store and gateway answer, host in New York\<close>
  "ny_env = (sample_env None)\<lparr>local_midnight := ny_midnight, days_before := ny_days_before\<rparr>"

definition ny_world :: world where
  \<comment> \<open>10 March 2024, 16:00Z; user 8 first seen at 05:00Z (local midnight), user 9 at
      04:59Z (23:59 local time the day before)\<close>
  "ny_world =
     (sample_world [sample_user 8 1710046800000, sample_user 9 1710046740000] [])
       \<lparr>clock := 1710086400000\<rparr>"

definition down_env :: env where
  \<comment> \<open>admin 7 configured; the gateway refuses every send\<close>
  "down_env = (sample_env (Some ''7''))\<lparr>send_ok := (\<lambda>n. False)\<rparr>"


section \<open>The User Tracker keeps one record per identifier\<close>

lemma db_op_good: "\<forall>i. db_ok e i \<Longrightarrow> db_op e w = (True, w\<lparr>db_ops := Suc (db_ops w)\<rparr>)"
  by (simp add: db_op_def)

lemma find_index_of_None: "(find_index_of P xs = None) = (\<forall>x\<in>set xs. \<not> P x)"
  by (induction xs) auto

lemma find_index_of_filter:
  "find_index_of P xs = Some i \<Longrightarrow> filter P xs = [d] \<Longrightarrow> P y \<Longrightarrow>
     xs ! i = d \<and> filter P (xs[i := y]) = [y]"
proof (induction xs arbitrary: i)
  case Nil
  then show ?case by simp
next
  case (Cons x xs)
  show ?case
  proof (cases "P x")
    case True
    with Cons.prems show ?thesis by auto
  next
    case False
    with Cons.prems obtain j where j: "find_index_of P xs = Some j" "i = Suc j"
      by auto
    with Cons.IH [of j] Cons.prems False show ?thesis by simp
  qed
qed

lemma saveUserData_create:
  assumes "\<forall>i. db_ok e i" and "\<forall>d\<in>set (users w). userId d \<noteq> tg_id (msg_from m)"
  shows "filter (\<lambda>d. userId d = tg_id (msg_from m)) (users (snd (saveUserData e w m wid))) =
           [new_user (w\<lparr>db_ops := Suc (db_ops w)\<rparr>) (msg_from m) wid]"
proof -
  have "find_index_of (\<lambda>d. userId d = tg_id (msg_from m)) (users w) = None"
    using assms(2) by (simp add: find_index_of_None)
  then show ?thesis
    using assms by (simp add: saveUserData_def db_op_good new_user_def Let_def)
qed

lemma saveUserData_update:
  assumes "\<forall>i. db_ok e i" and "filter (\<lambda>d. userId d = tg_id (msg_from m)) (users w) = [d]"
  shows "filter (\<lambda>d. userId d = tg_id (msg_from m)) (users (snd (saveUserData e w m wid))) =
           [update_user (w\<lparr>db_ops := Suc (db_ops w)\<rparr>) (msg_from m) wid d]"
proof -
  let ?P = "\<lambda>d. userId d = tg_id (msg_from m)"
  have "d \<in> set (filter ?P (users w))"
    using assms(2) by simp
  then have d: "?P d" and "\<not> (\<forall>x\<in>set (users w). \<not> ?P x)"
    by auto
  then obtain i where i: "find_index_of ?P (users w) = Some i"
    using find_index_of_None [of ?P "users w"] by fastforce
  have upd: "?P (update_user w' (msg_from m) wid d)" for w'
    using d by (simp add: update_user_def)
  from find_index_of_filter [OF i assms(2), of "update_user (w\<lparr>db_ops := Suc (db_ops w)\<rparr>) (msg_from m) wid d"] upd
  show ?thesis
    using assms(1) i by (simp add: saveUserData_def db_op_good Let_def)
qed

lemma add_viewed_distinct: "distinct vs \<Longrightarrow> distinct (add_viewed wid vs)"
  by (simp add: add_viewed_def split: option.splits)

lemma add_viewed_set: "set (add_viewed wid vs) = set vs \<union> {x. x \<noteq> [] \<and> wid = Some x}"
  by (auto simp: add_viewed_def split: option.splits)

lemma viewed_fold_distinct:
  "distinct vs \<Longrightarrow> distinct (foldl (\<lambda>vs x. add_viewed (snd x) vs) vs xs)"
  by (induction xs arbitrary: vs) (simp_all add: add_viewed_distinct)

lemma viewed_fold_set:
  "set (foldl (\<lambda>vs x. add_viewed (snd x) vs) vs xs) = set vs \<union> {x. x \<noteq> [] \<and> Some x \<in> snd ` set xs}"
  by (induction xs arbitrary: vs) (auto simp: add_viewed_set)

lemma recordInteractions_existing:
  assumes "\<forall>i. db_ok e i" and "\<forall>x\<in>set xs. tg_id (msg_from (fst x)) = uid"
    and "filter (\<lambda>d. userId d = uid) (users w) = [d]"
  shows "\<exists>d'. filter (\<lambda>d. userId d = uid) (users (recordInteractions e w xs)) = [d'] \<and>
           totalInteractions d' = totalInteractions d + int (length xs) \<and>
           wallpapersViewed d' = foldl (\<lambda>vs x. add_viewed (snd x) vs) (wallpapersViewed d) xs"
  using assms(2,3)
proof (induction xs arbitrary: w d)
  case Nil
  then show ?case by simp
next
  case (Cons x xs)
  let ?w = "snd (saveUserData e w (fst x) (snd x))"
  let ?d = "update_user (w\<lparr>db_ops := Suc (db_ops w)\<rparr>) (msg_from (fst x)) (snd x) d"
  have uid: "tg_id (msg_from (fst x)) = uid" using Cons.prems(1) by simp
  have "filter (\<lambda>d. userId d = uid) (users ?w) = [?d]"
    using saveUserData_update [OF assms(1), of "fst x" w d "snd x"] Cons.prems(2) uid by simp
  moreover have "\<forall>x\<in>set xs. tg_id (msg_from (fst x)) = uid" using Cons.prems(1) by simp
  ultimately obtain d' where d': "filter (\<lambda>d. userId d = uid) (users (recordInteractions e ?w xs)) = [d']"
    "totalInteractions d' = totalInteractions ?d + int (length xs)"
    "wallpapersViewed d' = foldl (\<lambda>vs x. add_viewed (snd x) vs) (wallpapersViewed ?d) xs"
    using Cons.IH [of ?w ?d] by blast
  then show ?case by (simp add: update_user_def)
qed

lemma new_user_viewed: "wallpapersViewed (new_user w u wid) = add_viewed wid []"
  by (simp add: new_user_def add_viewed_def split: option.splits)

lemma saveUserData_keeps:
  "clicks (snd (saveUserData e w m wid)) = clicks w \<and>
   clock (snd (saveUserData e w m wid)) = clock w \<and>
   trace (snd (saveUserData e w m wid)) = trace w \<and>
   send_ops (snd (saveUserData e w m wid)) = send_ops w"
  by (simp add: saveUserData_def db_op_def Let_def split: option.splits)

lemma sendMessage_keeps:
  "clicks (snd (sendMessage e w c r)) = clicks w \<and> users (snd (sendMessage e w c r)) = users w \<and>
   db_ops (snd (sendMessage e w c r)) = db_ops w \<and> clock (snd (sendMessage e w c r)) = clock w"
  by (simp add: sendMessage_def Let_def)

text \<open>
  \<^bold>\<open>C1.\<close> Take a store that answers, with no record for \<open>uid\<close>, and a non-empty sequence of
  \<open>saveUserData\<close> calls whose senders all have the identifier \<open>uid\<close>. Afterwards the store
  holds exactly one record for \<open>uid\<close>; its \<open>totalInteractions\<close> is the length of the
  sequence; its \<open>wallpapersViewed\<close> has no duplicates and holds exactly the wallpaper ids
  that were supplied. An id is supplied when the argument is a non-empty string: the
  source tests \<open>wallpaperId\<close> for truth, and its only caller, the \<open>/start\<close> handler, passes
  \<open>null\<close> for an empty parameter.
\<close>

theorem recordInteractions_one_record:
  assumes "\<forall>i. db_ok e i" and "xs \<noteq> []"
    and "\<forall>x\<in>set xs. tg_id (msg_from (fst x)) = uid"
    and "\<forall>d\<in>set (users w). userId d \<noteq> uid"
  shows "\<exists>d. filter (\<lambda>d. userId d = uid) (users (recordInteractions e w xs)) = [d] \<and>
           totalInteractions d = int (length xs) \<and>
           distinct (wallpapersViewed d) \<and>
           set (wallpapersViewed d) = {x. x \<noteq> [] \<and> Some x \<in> snd ` set xs}"
proof -
  from assms(2) obtain x xs' where xs: "xs = x # xs'" by (cases xs) auto
  let ?w = "snd (saveUserData e w (fst x) (snd x))"
  let ?d = "new_user (w\<lparr>db_ops := Suc (db_ops w)\<rparr>) (msg_from (fst x)) (snd x)"
  have uid: "tg_id (msg_from (fst x)) = uid" using assms(3) xs by simp
  have "filter (\<lambda>d. userId d = uid) (users ?w) = [?d]"
    using saveUserData_create [OF assms(1), of w "fst x" "snd x"] assms(4) uid by simp
  moreover have "\<forall>x\<in>set xs'. tg_id (msg_from (fst x)) = uid" using assms(3) xs by simp
  ultimately obtain d' where d': "filter (\<lambda>d. userId d = uid) (users (recordInteractions e ?w xs')) = [d']"
    "totalInteractions d' = totalInteractions ?d + int (length xs')"
    "wallpapersViewed d' = foldl (\<lambda>vs x. add_viewed (snd x) vs) (wallpapersViewed ?d) xs'"
    using recordInteractions_existing [OF assms(1), of xs' uid ?w ?d] by blast
  have v: "wallpapersViewed d' = foldl (\<lambda>vs x. add_viewed (snd x) vs) [] xs"
    using d'(3) by (simp add: xs new_user_viewed)
  have "totalInteractions d' = int (length xs)"
    using d'(2) by (simp add: xs new_user_def)
  moreover have "distinct (wallpapersViewed d')"
    unfolding v by (rule viewed_fold_distinct) simp
  moreover have "set (wallpapersViewed d') = {x. x \<noteq> [] \<and> Some x \<in> snd ` set xs}"
    unfolding v by (simp add: viewed_fold_set)
  ultimately show ?thesis using d'(1) by (simp add: xs)
qed

theorem recordInteractions_one_record_witness:
  "\<exists>d. filter (\<lambda>d. userId d = 7)
          (users (recordInteractions (sample_env None) (sample_world [sample_user 9 0] [])
             sample_interactions)) = [d] \<and>
       totalInteractions d = 4 \<and> distinct (wallpapersViewed d) \<and>
       set (wallpapersViewed d) = {''a'', ''b''}"
proof -
  have 1: "\<forall>i. db_ok (sample_env None) i" by (simp add: sample_env_def)
  have 2: "sample_interactions \<noteq> []" by (simp add: sample_interactions_def)
  have 3: "\<forall>x\<in>set sample_interactions. tg_id (msg_from (fst x)) = 7"
    by (simp add: sample_interactions_def sample_msg_def sample_sender_def)
  have 4: "\<forall>d\<in>set (users (sample_world [sample_user 9 0] [])). userId d \<noteq> 7"
    by (simp add: sample_world_def sample_user_def)
  have 5: "{x. x \<noteq> [] \<and> Some x \<in> snd ` set sample_interactions} = {''a'', ''b''}"
    by (auto simp: sample_interactions_def)
  have 6: "int (length sample_interactions) = 4" by (simp add: sample_interactions_def)
  show ?thesis
    using recordInteractions_one_record [OF 1 2 3 4] unfolding 5 6 .
qed

section \<open>What an interaction overwrites\<close>

text \<open>
  \<^bold>\<open>C5.\<close> An interaction of a sender whose record exists overwrites five fields of the
  profile snapshot with what the gateway supplies now (an absent or empty string becomes
  \<open>null\<close>, an absent flag \<open>false\<close>): username, first name, last name, language code and
  premium flag. The update branch has no assignment to \<open>isBot\<close>: the bot flag keeps the
  value stored when the record was created.
\<close>

theorem saveUserData_overwrites_profile:
  assumes "\<forall>i. db_ok e i"
    and "filter (\<lambda>d. userId d = tg_id (msg_from m)) (users w) = [d]"
  shows "\<exists>d'. filter (\<lambda>d. userId d = tg_id (msg_from m))
                (users (snd (saveUserData e w m wid))) = [d'] \<and>
           username d' = or_null (tg_username (msg_from m)) \<and>
           firstName d' = or_null (tg_first_name (msg_from m)) \<and>
           lastName d' = or_null (tg_last_name (msg_from m)) \<and>
           languageCode d' = or_null (tg_language_code (msg_from m)) \<and>
           isPremium d' = or_false (tg_is_premium (msg_from m)) \<and>
           isBot d' = isBot d"
  using saveUserData_update [OF assms, of wid] by (simp add: update_user_def)

theorem saveUserData_overwrites_profile_witness:
  "\<exists>d'. filter (\<lambda>d. userId d = 7)
           (users (snd (saveUserData (sample_env None) (sample_world [sample_user 7 0] [])
              \<lparr>msg_from = bot_sender, msg_chat_id = 7, msg_text = ''/start''\<rparr> None))) = [d'] \<and>
         username d' = Some ''robo'' \<and> firstName d' = Some ''Ada'' \<and> lastName d' = None \<and>
         languageCode d' = Some ''en'' \<and> isPremium d' = False \<and> isBot d' = False"
proof -
  let ?m = "\<lparr>msg_from = bot_sender, msg_chat_id = 7, msg_text = ''/start''\<rparr>"
  have 1: "\<forall>i. db_ok (sample_env None) i" by (simp add: sample_env_def)
  have 2: "filter (\<lambda>d. userId d = tg_id (msg_from ?m)) (users (sample_world [sample_user 7 0] []))
             = [sample_user 7 0]"
    by (simp add: sample_world_def sample_user_def bot_sender_def sample_sender_def)
  show ?thesis
    using saveUserData_overwrites_profile [OF 1 2, of None]
    by (simp add: bot_sender_def sample_sender_def or_null_def or_false_def truthy_def
        sample_user_def)
qed

text \<open>
  The specification lists six overwritten fields, the bot flag among them. A record stored
  with \<open>isBot = false\<close> keeps it when its sender next arrives with \<open>is_bot = true\<close>.
\<close>

theorem saveUserData_bot_flag_counterexample:
  "tg_is_bot bot_sender = Some True \<and>
   map isBot (users (sample_world [sample_user 7 0] [])) = [False] \<and>
   map isBot (users (snd (saveUserData (sample_env None) (sample_world [sample_user 7 0] [])
      \<lparr>msg_from = bot_sender, msg_chat_id = 7, msg_text = ''/start''\<rparr> None))) = [False]"
  by (simp add: saveUserData_def db_op_def sample_env_def sample_world_def sample_user_def
      bot_sender_def sample_sender_def update_user_def Let_def)

section \<open>/start and link clicks\<close>

text \<open>
  \<^bold>\<open>C3.\<close> The parameter of \<open>/start\<close> is the rest of the line after the command, trimmed.
  With an empty parameter the handler leaves the LinkClick collection as it is. With a
  non-empty parameter, and a store that answers, it appends exactly one LinkClick: the
  parameter as wallpaper id, the sender's identifier, and the sender's username (\<open>null\<close>
  when absent or empty). The text \<open>/start\<close> has the empty parameter and
  \<open>/start wp123\<close> has the parameter \<open>wp123\<close>.
\<close>

theorem start_link_click:
  "route ''/start'' = [CmdStart []] \<and> route ''/start wp123'' = [CmdStart '' wp123''] \<and>
   trim '' wp123'' = ''wp123'' \<and>
   (trim cap = [] \<longrightarrow> clicks (snd (start_handler e w m cap)) = clicks w) \<and>
   (trim cap \<noteq> [] \<and> (\<forall>i. db_ok e i) \<longrightarrow>
      clicks (snd (start_handler e w m cap)) =
        clicks w @ [\<lparr>lc_wallpaperId = trim cap, lc_userId = tg_id (msg_from m),
                     lc_username = or_null (tg_username (msg_from m)),
                     lc_timestamp = clock w\<rparr>])"
proof -
  have r1: "route ''/start'' = [CmdStart []]"
    by (simp add: route_def at_start_def at_stats_def at_toplinks_def at_recentusers_def
        at_userinfo_def at_broadcast_def at_adminhelp_def dot_run_def)
  have r2: "route ''/start wp123'' = [CmdStart '' wp123'']"
    by (simp add: route_def at_start_def at_stats_def at_toplinks_def at_recentusers_def
        at_userinfo_def at_broadcast_def at_adminhelp_def dot_run_def is_line_end_def)
  have t: "trim '' wp123'' = ''wp123''"
    by (simp add: trim_def is_space_def)
  have a: "clicks (snd (start_handler e w m cap)) = clicks w" if "trim cap = []"
    using that by (simp add: start_handler_def Let_def sendMessage_keeps saveUserData_keeps)
  have b: "clicks (snd (start_handler e w m cap)) =
        clicks w @ [\<lparr>lc_wallpaperId = trim cap, lc_userId = tg_id (msg_from m),
                     lc_username = or_null (tg_username (msg_from m)),
                     lc_timestamp = clock w\<rparr>]" if "trim cap \<noteq> []" "\<forall>i. db_ok e i"
    using that
    by (simp add: start_handler_def Let_def sendMessage_keeps trackLinkClick_def db_op_def
        saveUserData_keeps split_beta)
  show ?thesis using r1 r2 t a b by blast
qed

theorem start_link_click_witness:
  "clicks (snd (start_handler (sample_env None) (sample_world [] []) (sample_msg 7 ''/start'') [])) = [] \<and>
   clicks (snd (start_handler (sample_env None) (sample_world [] []) (sample_msg 7 ''/start wp123'')
      '' wp123'')) =
     [\<lparr>lc_wallpaperId = ''wp123'', lc_userId = 7, lc_username = Some ''ada'', lc_timestamp = 1000\<rparr>]"
proof -
  have 1: "\<forall>i. db_ok (sample_env None) i" by (simp add: sample_env_def)
  have 2: "trim [] = []" by (simp add: trim_def)
  have 3: "trim '' wp123'' = ''wp123''" by (simp add: trim_def is_space_def)
  have 4: "or_null (tg_username (msg_from (sample_msg 7 ''/start wp123''))) = Some ''ada''"
    by (simp add: sample_msg_def sample_sender_def or_null_def truthy_def)
  have 5: "tg_id (msg_from (sample_msg 7 ''/start wp123'')) = 7"
    by (simp add: sample_msg_def sample_sender_def)
  have 6: "clicks (sample_world [] []) = [] \<and> clock (sample_world [] []) = 1000"
    by (simp add: sample_world_def)
  from start_link_click [of "[]" "sample_env None" "sample_world [] []" "sample_msg 7 ''/start''"]
  have a: "clicks (snd (start_handler (sample_env None) (sample_world [] []) (sample_msg 7 ''/start'') [])) = []"
    using 2 6 by simp
  from start_link_click [of "'' wp123''" "sample_env None" "sample_world [] []"
      "sample_msg 7 ''/start wp123''"]
  have b: "clicks (snd (start_handler (sample_env None) (sample_world [] [])
      (sample_msg 7 ''/start wp123'') '' wp123'')) =
     [\<lparr>lc_wallpaperId = ''wp123'', lc_userId = 7, lc_username = Some ''ada'', lc_timestamp = 1000\<rparr>]"
    using 1 3 4 5 6 by simp
  show ?thesis using a b by simp
qed

section \<open>Admin Gate\<close>

lemma db_op_admin: "db_op (e\<lparr>ADMIN_USER_ID := a\<rparr>) w = db_op e w"
  by (simp add: db_op_def)

lemma sendMessage_admin: "sendMessage (e\<lparr>ADMIN_USER_ID := a\<rparr>) w c r = sendMessage e w c r"
  by (simp add: sendMessage_def)

lemma reply_return_admin: "reply_return (e\<lparr>ADMIN_USER_ID := a\<rparr>) w c r = reply_return e w c r"
  by (simp add: reply_return_def sendMessage_admin)

lemma catch_reply_admin: "catch_reply (e\<lparr>ADMIN_USER_ID := a\<rparr>) r c err = catch_reply e r c err"
  by (simp add: catch_reply_def reply_return_admin split: prod.split bool.split)

lemma countDocuments_admin:
  "countDocuments (e\<lparr>ADMIN_USER_ID := a\<rparr>) w docs P = countDocuments e w docs P"
  by (simp add: countDocuments_def db_op_admin)

lemma findOne_admin: "findOne (e\<lparr>ADMIN_USER_ID := a\<rparr>) w docs P = findOne e w docs P"
  by (simp add: findOne_def db_op_admin)

lemma stats_try_admin: "stats_try (e\<lparr>ADMIN_USER_ID := a\<rparr>) w c = stats_try e w c"
  by (simp add: stats_try_def countDocuments_admin sendMessage_admin cong: if_cong)

lemma toplinks_try_admin: "toplinks_try (e\<lparr>ADMIN_USER_ID := a\<rparr>) w c l = toplinks_try e w c l"
  by (simp add: toplinks_try_def aggregate_top_def db_op_admin sendMessage_admin cong: if_cong)

lemma recentusers_try_admin:
  "recentusers_try (e\<lparr>ADMIN_USER_ID := a\<rparr>) w c l = recentusers_try e w c l"
  by (simp add: recentusers_try_def find_recent_def db_op_admin sendMessage_admin cong: if_cong)

lemma userinfo_try_admin: "userinfo_try (e\<lparr>ADMIN_USER_ID := a\<rparr>) w c q = userinfo_try e w c q"
  by (simp add: userinfo_try_def userinfo_show_def findOne_admin countDocuments_admin
      sendMessage_admin cong: if_cong option.case_cong)

lemma broadcast_loop_admin:
  "broadcast_loop (e\<lparr>ADMIN_USER_ID := a\<rparr>) w t us s f = broadcast_loop e w t us s f"
  by (induction us arbitrary: w s f) (simp_all add: sendMessage_admin split: prod.split)

lemma broadcast_try_admin: "broadcast_try (e\<lparr>ADMIN_USER_ID := a\<rparr>) w c t = broadcast_try e w c t"
  by (simp add: broadcast_try_def find_userIds_def db_op_admin sendMessage_admin
      broadcast_loop_admin cong: if_cong)

lemma unauthorized_self: "\<not> unauthorized (e\<lparr>ADMIN_USER_ID := Some (toString uid)\<rparr>) uid"
  by (simp add: unauthorized_def)

lemma unauthorized_unset: "\<not> truthy (ADMIN_USER_ID e) \<Longrightarrow> \<not> unauthorized e uid"
  by (simp add: unauthorized_def)

lemma unauthorized_mismatch:
  "ADMIN_USER_ID e = Some a \<Longrightarrow> a \<noteq> [] \<Longrightarrow> toString uid \<noteq> a \<Longrightarrow> unauthorized e uid"
  by (simp add: unauthorized_def truthy_def)

lemma run_handler_unauthorized:
  assumes "unauthorized e (tg_id (msg_from m))" and "is_admin_command c"
  shows "run_handler e w m c =
           (if c = CmdAdminHelp then (Returned, w)
            else reply_return e w (msg_chat_id m) Unauthorized)"
  using assms
  by (cases c)
    (simp_all add: stats_handler_def toplinks_handler_def recentusers_handler_def
      userinfo_handler_def broadcast_handler_def adminhelp_handler_def)

lemma run_handler_open:
  assumes "\<not> truthy (ADMIN_USER_ID e)" and "is_admin_command c"
  shows "run_handler e w m c =
           run_handler (e\<lparr>ADMIN_USER_ID := Some (toString (tg_id (msg_from m)))\<rparr>) w m c"
  using assms(2)
  by (cases c)
    (simp_all add: stats_handler_def toplinks_handler_def recentusers_handler_def
      userinfo_handler_def broadcast_handler_def adminhelp_handler_def
      unauthorized_self unauthorized_unset [OF assms(1)] reply_return_admin catch_reply_admin
      stats_try_admin toplinks_try_admin recentusers_try_admin userinfo_try_admin
      broadcast_try_admin Let_def cong: if_cong option.case_cong)

text \<open>
  \<^bold>\<open>C2.\<close> Let \<open>c\<close> be one of the six admin commands. When an admin identifier \<open>a\<close> is
  configured (the variable is set and not empty) and the caller's identifier, rendered in
  decimal, differs from it, the handler of \<open>/adminhelp\<close> returns with the world untouched,
  and every other handler makes exactly one \<open>sendMessage\<close> of the unauthorized text to the
  chat and stops: no store operation is issued and the collections are as before (when
  the gateway refuses that send the handler's promise rejects). When no admin identifier
  is configured (unset or empty) no caller is unauthorized, and the handler does exactly
  what it does for the configured admin in person.
\<close>

theorem admin_gate:
  assumes "is_admin_command c"
  shows "(ADMIN_USER_ID e = Some a \<and> a \<noteq> [] \<and> toString (tg_id (msg_from m)) \<noteq> a \<longrightarrow>
            run_handler e w m c =
              (if c = CmdAdminHelp then (Returned, w)
               else (if send_ok e (send_ops w) then Returned else Rejected,
                     w\<lparr>send_ops := Suc (send_ops w),
                       trace := trace w @
                         [if send_ok e (send_ops w) then Sent (msg_chat_id m) Unauthorized
                          else SendFailed (msg_chat_id m) Unauthorized]\<rparr>)) \<and>
            db_ops (snd (run_handler e w m c)) = db_ops w \<and>
            users (snd (run_handler e w m c)) = users w \<and>
            clicks (snd (run_handler e w m c)) = clicks w) \<and>
         (\<not> truthy (ADMIN_USER_ID e) \<longrightarrow>
            \<not> unauthorized e (tg_id (msg_from m)) \<and>
            run_handler e w m c =
              run_handler (e\<lparr>ADMIN_USER_ID := Some (toString (tg_id (msg_from m)))\<rparr>) w m c)"
proof -
  have "run_handler e w m c =
              (if c = CmdAdminHelp then (Returned, w)
               else (if send_ok e (send_ops w) then Returned else Rejected,
                     w\<lparr>send_ops := Suc (send_ops w),
                       trace := trace w @
                         [if send_ok e (send_ops w) then Sent (msg_chat_id m) Unauthorized
                          else SendFailed (msg_chat_id m) Unauthorized]\<rparr>))"
    if "ADMIN_USER_ID e = Some a" "a \<noteq> []" "toString (tg_id (msg_from m)) \<noteq> a"
    using run_handler_unauthorized [OF unauthorized_mismatch [OF that] assms, of w]
    by (simp add: reply_return_def sendMessage_def Let_def)
  moreover have "db_ops (snd (run_handler e w m c)) = db_ops w \<and>
            users (snd (run_handler e w m c)) = users w \<and>
            clicks (snd (run_handler e w m c)) = clicks w"
    if "ADMIN_USER_ID e = Some a" "a \<noteq> []" "toString (tg_id (msg_from m)) \<noteq> a"
    using run_handler_unauthorized [OF unauthorized_mismatch [OF that] assms, of w]
    by (simp add: reply_return_def sendMessage_def Let_def)
  moreover have "\<not> unauthorized e (tg_id (msg_from m)) \<and>
            run_handler e w m c =
              run_handler (e\<lparr>ADMIN_USER_ID := Some (toString (tg_id (msg_from m)))\<rparr>) w m c"
    if "\<not> truthy (ADMIN_USER_ID e)"
    using run_handler_open [OF that assms] unauthorized_unset [OF that] by simp
  ultimately show ?thesis by blast
qed

lemma toString_7: "toString 7 = ''7''"
  by (simp add: toString_def digits_of.simps digit_char_def)

theorem admin_gate_witness:
  "run_handler (sample_env (Some ''42'')) (sample_world [] []) (sample_msg 7 ''/stats'') CmdStats =
     (Returned, (sample_world [] [])\<lparr>send_ops := 1, trace := [Sent 7 Unauthorized]\<rparr>) \<and>
   run_handler (sample_env (Some ''42'')) (sample_world [] []) (sample_msg 7 ''/adminhelp'')
     CmdAdminHelp = (Returned, sample_world [] []) \<and>
   run_handler (sample_env None) (sample_world [] []) (sample_msg 7 ''/stats'') CmdStats =
     run_handler (sample_env (Some ''7'')) (sample_world [] []) (sample_msg 7 ''/stats'') CmdStats"
proof -
  have c: "is_admin_command CmdStats" "is_admin_command CmdAdminHelp" by simp_all
  have e: "ADMIN_USER_ID (sample_env (Some ''42'')) = Some ''42''"
    "send_ok (sample_env (Some ''42'')) 0"
    "\<not> truthy (ADMIN_USER_ID (sample_env None))"
    "(sample_env None)\<lparr>ADMIN_USER_ID := Some ''7''\<rparr> = sample_env (Some ''7'')"
    by (simp_all add: sample_env_def truthy_def)
  have m: "tg_id (msg_from (sample_msg 7 t)) = 7" "msg_chat_id (sample_msg 7 t) = 7" for t
    by (simp_all add: sample_msg_def sample_sender_def)
  have w: "send_ops (sample_world [] []) = 0" "trace (sample_world [] []) = []"
    by (simp_all add: sample_world_def)
  have 1: "run_handler (sample_env (Some ''42'')) (sample_world [] []) (sample_msg 7 ''/stats'') CmdStats =
     (Returned, (sample_world [] [])\<lparr>send_ops := 1, trace := [Sent 7 Unauthorized]\<rparr>)"
    using admin_gate [OF c(1), of "sample_env (Some ''42'')" "''42''" "sample_msg 7 ''/stats''"
        "sample_world [] []"]
    by (simp add: e m w toString_7)
  have 2: "run_handler (sample_env (Some ''42'')) (sample_world [] []) (sample_msg 7 ''/adminhelp'')
     CmdAdminHelp = (Returned, sample_world [] [])"
    using admin_gate [OF c(2), of "sample_env (Some ''42'')" "''42''" "sample_msg 7 ''/adminhelp''"
        "sample_world [] []"]
    by (simp add: e m w toString_7)
  have 3: "run_handler (sample_env None) (sample_world [] []) (sample_msg 7 ''/stats'') CmdStats =
     run_handler (sample_env (Some ''7'')) (sample_world [] []) (sample_msg 7 ''/stats'') CmdStats"
    using admin_gate [OF c(1), of "sample_env None" "''42''" "sample_msg 7 ''/stats''"
        "sample_world [] []"]
    by (simp add: e m toString_7)
  show ?thesis using 1 2 3 by simp
qed

section \<open>Routing of concrete texts\<close>

lemmas matcher_defs = route_def at_start_def at_stats_def at_toplinks_def at_recentusers_def
  at_userinfo_def at_broadcast_def at_adminhelp_def dot_run_def opt_number_def opt_rest_def
  is_space_def is_digit_def is_line_end_def

lemma route_toplinks_0: "route ''/toplinks 0'' = [CmdTopLinks (Some ''0'')]"
  by (simp add: matcher_defs)

lemma route_toplinks: "route ''/toplinks'' = [CmdTopLinks None]"
  by (simp add: matcher_defs)

lemma route_recentusers_0: "route ''/recentusers 0'' = [CmdRecentUsers (Some ''0'')]"
  by (simp add: matcher_defs)

lemma route_recentusers: "route ''/recentusers'' = [CmdRecentUsers None]"
  by (simp add: matcher_defs)

lemma route_broadcast_bare: "route ''/broadcast'' = []"
  by (simp add: matcher_defs)

lemma route_userinfo_at: "route ''/userinfo @nonexistent'' = [CmdUserInfo (Some ''@nonexistent'')]"
  by (simp add: matcher_defs)

lemma route_userinfo_nan: "route ''/userinfo notanumber'' = [CmdUserInfo (Some ''notanumber'')]"
  by (simp add: matcher_defs)

lemma parseInt_0: "parseInt ''0'' = Some 0"
  by (simp add: parseInt_def is_space_def is_radix_digit_def digit_value_def)

lemma parseInt_nan: "parseInt ''notanumber'' = None"
  by (simp add: parseInt_def is_space_def is_radix_digit_def digit_value_def)

lemma parse_limit_0: "parse_limit (Some ''0'') = 10"
  by (simp add: parse_limit_def parseInt_0)

lemma parse_limit_none: "parse_limit None = 10"
  by (simp add: parse_limit_def)

lemma handler_ignores_text:
  "toplinks_handler e w (m\<lparr>msg_text := t\<rparr>) cap = toplinks_handler e w m cap"
  "recentusers_handler e w (m\<lparr>msg_text := t\<rparr>) cap = recentusers_handler e w m cap"
  by (simp_all add: toplinks_handler_def recentusers_handler_def)

text \<open>
  \<^bold>\<open>C9.\<close> The texts \<open>/toplinks 0\<close> and \<open>/recentusers 0\<close> match their pattern with the
  capture \<open>0\<close>; \<open>parseInt\<close> gives 0, which is falsy, so the limit is the default 10, the
  limit of the command without argument. Processing the message with the argument \<open>0\<close>
  gives the same outcomes and the same world as processing it without argument.
\<close>

theorem limit_zero_is_default:
  "route ''/toplinks 0'' = [CmdTopLinks (Some ''0'')] \<and>
   route ''/toplinks'' = [CmdTopLinks None] \<and>
   route ''/recentusers 0'' = [CmdRecentUsers (Some ''0'')] \<and>
   route ''/recentusers'' = [CmdRecentUsers None] \<and>
   parse_limit (Some ''0'') = 10 \<and> parse_limit None = 10 \<and>
   processUpdate e w (m\<lparr>msg_text := ''/toplinks 0''\<rparr>) =
     processUpdate e w (m\<lparr>msg_text := ''/toplinks''\<rparr>) \<and>
   processUpdate e w (m\<lparr>msg_text := ''/recentusers 0''\<rparr>) =
     processUpdate e w (m\<lparr>msg_text := ''/recentusers''\<rparr>)"
proof -
  have "toplinks_handler e w m' (Some ''0'') = toplinks_handler e w m' None" for m'
    by (simp add: toplinks_handler_def parse_limit_0 parse_limit_none)
  then have a: "processUpdate e w (m\<lparr>msg_text := ''/toplinks 0''\<rparr>) =
     processUpdate e w (m\<lparr>msg_text := ''/toplinks''\<rparr>)"
    by (simp add: processUpdate_def route_toplinks_0 route_toplinks handler_ignores_text)
  have "recentusers_handler e w m' (Some ''0'') = recentusers_handler e w m' None" for m'
    by (simp add: recentusers_handler_def parse_limit_0 parse_limit_none)
  then have b: "processUpdate e w (m\<lparr>msg_text := ''/recentusers 0''\<rparr>) =
     processUpdate e w (m\<lparr>msg_text := ''/recentusers''\<rparr>)"
    by (simp add: processUpdate_def route_recentusers_0 route_recentusers handler_ignores_text)
  show ?thesis
    using a b route_toplinks_0 route_toplinks route_recentusers_0 route_recentusers
      parse_limit_0 parse_limit_none by simp
qed

theorem limit_zero_is_default_witness:
  "processUpdate (sample_env None) (sample_world [] [sample_click ''A''])
      (sample_msg 7 ''/toplinks 0'') =
     ([Returned], (sample_world [] [sample_click ''A''])
        \<lparr>db_ops := 1, send_ops := 1, trace := [Sent 7 (TopLinksReply 10 [(''A'', 1)])]\<rparr>)"
proof -
  have m: "sample_msg 7 ''/toplinks 0'' = (sample_msg 7 [])\<lparr>msg_text := ''/toplinks 0''\<rparr>"
    by (simp add: sample_msg_def)
  have "processUpdate (sample_env None) (sample_world [] [sample_click ''A''])
      ((sample_msg 7 [])\<lparr>msg_text := ''/toplinks''\<rparr>) =
     ([Returned], (sample_world [] [sample_click ''A''])
        \<lparr>db_ops := 1, send_ops := 1, trace := [Sent 7 (TopLinksReply 10 [(''A'', 1)])]\<rparr>)"
    by (simp add: processUpdate_def route_toplinks toplinks_handler_def parse_limit_none
        unauthorized_def sample_env_def truthy_def catch_reply_def toplinks_try_def and_then_def
        aggregate_top_def db_op_def sample_world_def group_stage_def sort_stage_def
        limit_stage_def sample_click_def sendMessage_def sample_msg_def sample_sender_def)
  then show ?thesis
    using limit_zero_is_default [of "sample_env None" "sample_world [] [sample_click ''A'']"
        "sample_msg 7 []"]
    by (simp add: m)
qed

text \<open>
  \<^bold>\<open>C10.\<close> The text \<open>/broadcast\<close> alone matches none of the seven patterns (the broadcast
  pattern wants a space and at least one more character). Processing it runs no handler:
  the world is unchanged, so nothing is sent and the store is not read.
\<close>

theorem bare_broadcast_is_noop:
  "route ''/broadcast'' = [] \<and> processUpdate e w (m\<lparr>msg_text := ''/broadcast''\<rparr>) = ([], w)"
  by (simp add: processUpdate_def route_broadcast_bare)

theorem bare_broadcast_is_noop_witness:
  "processUpdate (sample_env (Some ''7'')) (sample_world [sample_user 9 0] [])
     (sample_msg 7 ''/broadcast'') = ([], sample_world [sample_user 9 0] [])"
proof -
  have m: "sample_msg 7 ''/broadcast'' = (sample_msg 7 [])\<lparr>msg_text := ''/broadcast''\<rparr>"
    by (simp add: sample_msg_def)
  show ?thesis
    using bare_broadcast_is_noop [of "sample_env (Some ''7'')" "sample_world [sample_user 9 0] []"
        "sample_msg 7 []"]
    by (simp add: m)
qed

section \<open>/userinfo\<close>

lemma send_good:
  "\<forall>i. send_ok e i \<Longrightarrow>
     sendMessage e w c r = (True, w\<lparr>send_ops := Suc (send_ops w), trace := trace w @ [Sent c r]\<rparr>)"
  by (simp add: sendMessage_def)

lemma userinfo_show_replies:
  assumes "\<forall>i. send_ok e i"
  shows "\<exists>r. trace (snd (catch_reply e (userinfo_show e w c u) c UserInfoError)) = trace w @ [Sent c r]
            \<and> fst (catch_reply e (userinfo_show e w c u) c UserInfoError) = Returned"
  by (cases u)
    (auto simp: userinfo_show_def catch_reply_def reply_return_def send_good [OF assms]
      and_then_def countDocuments_def db_op_def Let_def)

lemma userinfo_try_replies:
  assumes "\<forall>i. send_ok e i"
  shows "\<exists>r. trace (snd (catch_reply e (userinfo_try e w c q) c UserInfoError)) = trace w @ [Sent c r]
            \<and> fst (catch_reply e (userinfo_try e w c q) c UserInfoError) = Returned"
proof -
  have look: "\<exists>r. trace (snd (catch_reply e
             (and_then (findOne e w (users w) P) (\<lambda>user w1. userinfo_show e w1 c user)) c UserInfoError))
               = trace w @ [Sent c r] \<and>
           fst (catch_reply e
             (and_then (findOne e w (users w) P) (\<lambda>user w1. userinfo_show e w1 c user)) c UserInfoError)
               = Returned" for P
  proof (cases "db_ok e (db_ops w)")
    case True
    then show ?thesis
      using userinfo_show_replies [OF assms, of "w\<lparr>db_ops := Suc (db_ops w)\<rparr>" c "find P (users w)"]
      by (simp add: findOne_def db_op_def and_then_def)
  next
    case False
    then show ?thesis
      by (simp add: findOne_def db_op_def and_then_def catch_reply_def reply_return_def
          send_good [OF assms])
  qed
  show ?thesis
  proof (cases "starts_with ''@'' q")
    case True
    then show ?thesis using look by (simp add: userinfo_try_def)
  next
    case False
    show ?thesis
    proof (cases "parseInt q")
      case None
      with False show ?thesis
        by (simp add: userinfo_try_def catch_reply_def send_good [OF assms])
    next
      case (Some n)
      with False show ?thesis using look by (simp add: userinfo_try_def)
    qed
  qed
qed

lemma userinfo_handler_replies:
  assumes "\<not> unauthorized e (tg_id (msg_from m))" and "\<forall>i. send_ok e i"
  shows "fst (userinfo_handler e w m cap) = Returned \<and>
         (\<exists>r. trace (snd (userinfo_handler e w m cap)) = trace w @ [Sent (msg_chat_id m) r])"
proof (cases cap)
  case None
  then show ?thesis
    using assms(1) by (simp add: userinfo_handler_def reply_return_def send_good [OF assms(2)])
next
  case (Some q)
  show ?thesis
  proof (cases "q = []")
    case True
    with Some show ?thesis
      using assms(1) by (simp add: userinfo_handler_def reply_return_def send_good [OF assms(2)])
  next
    case False
    with Some show ?thesis
      using assms(1) userinfo_try_replies [OF assms(2), of w "msg_chat_id m" q]
      by (simp add: userinfo_handler_def Let_def)
  qed
qed

lemma userinfo_handler_invalid:
  assumes "\<not> unauthorized e (tg_id (msg_from m))" and "\<forall>i. send_ok e i"
    and "q \<noteq> []" and "\<not> starts_with ''@'' q" and "parseInt q = None"
  shows "userinfo_handler e w m (Some q) =
           (Returned, w\<lparr>send_ops := Suc (send_ops w),
                        trace := trace w @ [Sent (msg_chat_id m) InvalidUserId]\<rparr>)"
  using assms(1,3,4,5)
  by (simp add: userinfo_handler_def userinfo_try_def catch_reply_def send_good [OF assms(2)])

lemma userinfo_handler_lookup:
  assumes "\<not> unauthorized e (tg_id (msg_from m))" and "\<forall>i. send_ok e i" and "\<forall>i. db_ok e i"
    and "q \<noteq> []"
    and "P = (if starts_with ''@'' q then (\<lambda>u. username u = Some (drop 1 q))
              else (\<lambda>u. Some (userId u) = parseInt q))"
    and "starts_with ''@'' q \<or> parseInt q \<noteq> None"
  shows "trace (snd (userinfo_handler e w m (Some q))) = trace w @
           [Sent (msg_chat_id m)
              (case find P (users w) of
                 None \<Rightarrow> UserNotFound
               | Some u \<Rightarrow> UserInfoReply u (length (filter (\<lambda>c. lc_userId c = userId u) (clicks w))))]"
proof (cases "starts_with ''@'' q")
  case True
  then show ?thesis
    using assms(1,3,4,5)
    by (simp add: userinfo_handler_def userinfo_try_def catch_reply_def send_good [OF assms(2)]
        findOne_def db_op_def and_then_def userinfo_show_def countDocuments_def
        split: option.splits)
next
  case False
  with assms(6) obtain n where n: "parseInt q = Some n" by auto
  have "(\<lambda>u. Some (userId u) = Some n) = (\<lambda>u. userId u = n)" by auto
  with False n show ?thesis
    using assms(1,3,4,5)
    by (simp add: userinfo_handler_def userinfo_try_def catch_reply_def send_good [OF assms(2)]
        findOne_def db_op_def and_then_def userinfo_show_def countDocuments_def
        split: option.splits)
qed

text \<open>
  With an authorized caller and a gateway that accepts what is sent, the handler returns
  normally after exactly one reply to the chat, whatever the argument and the store are
  and whether or not the store answers. An argument that does not start with \<open>@\<close> and
  that \<open>parseInt\<close> cannot read gets the invalid-id reply, with no store operation. When
  the store answers, an argument \<open>@name\<close> is looked up by username and any other readable
  argument by the integer read; with no such record the reply is not-found, otherwise it
  is the profile with the number of the user's link clicks.
\<close>

theorem userinfo_replies_when_gateway_accepts:
  assumes "\<not> unauthorized e (tg_id (msg_from m))" and "\<forall>i. send_ok e i"
  shows "fst (userinfo_handler e w m cap) = Returned \<and>
         (\<exists>r. trace (snd (userinfo_handler e w m cap)) = trace w @ [Sent (msg_chat_id m) r]) \<and>
         (q \<noteq> [] \<and> \<not> starts_with ''@'' q \<and> parseInt q = None \<longrightarrow>
            userinfo_handler e w m (Some q) =
              (Returned, w\<lparr>send_ops := Suc (send_ops w),
                           trace := trace w @ [Sent (msg_chat_id m) InvalidUserId]\<rparr>)) \<and>
         ((\<forall>i. db_ok e i) \<and> starts_with ''@'' q \<longrightarrow>
            trace (snd (userinfo_handler e w m (Some q))) = trace w @
              [Sent (msg_chat_id m)
                 (case find (\<lambda>u. username u = Some (drop 1 q)) (users w) of
                    None \<Rightarrow> UserNotFound
                  | Some u \<Rightarrow>
                      UserInfoReply u (length (filter (\<lambda>c. lc_userId c = userId u) (clicks w))))]) \<and>
         ((\<forall>i. db_ok e i) \<and> q \<noteq> [] \<and> \<not> starts_with ''@'' q \<and> parseInt q = Some n \<longrightarrow>
            trace (snd (userinfo_handler e w m (Some q))) = trace w @
              [Sent (msg_chat_id m)
                 (case find (\<lambda>u. userId u = n) (users w) of
                    None \<Rightarrow> UserNotFound
                  | Some u \<Rightarrow>
                      UserInfoReply u (length (filter (\<lambda>c. lc_userId c = userId u) (clicks w))))]) \<and>
         route ''/userinfo @nonexistent'' = [CmdUserInfo (Some ''@nonexistent'')] \<and>
         route ''/userinfo notanumber'' = [CmdUserInfo (Some ''notanumber'')] \<and>
         parseInt ''notanumber'' = None"
proof -
  have at: "trace (snd (userinfo_handler e w m (Some q))) = trace w @
              [Sent (msg_chat_id m)
                 (case find (\<lambda>u. username u = Some (drop 1 q)) (users w) of
                    None \<Rightarrow> UserNotFound
                  | Some u \<Rightarrow>
                      UserInfoReply u (length (filter (\<lambda>c. lc_userId c = userId u) (clicks w))))]"
    if "\<forall>i. db_ok e i" "starts_with ''@'' q"
  proof -
    have "q \<noteq> []" using that(2) by auto
    then show ?thesis
      using userinfo_handler_lookup [OF assms that(1), of q
          "\<lambda>u. username u = Some (drop 1 q)" w] that(2) by simp
  qed
  have num: "trace (snd (userinfo_handler e w m (Some q))) = trace w @
              [Sent (msg_chat_id m)
                 (case find (\<lambda>u. userId u = n) (users w) of
                    None \<Rightarrow> UserNotFound
                  | Some u \<Rightarrow>
                      UserInfoReply u (length (filter (\<lambda>c. lc_userId c = userId u) (clicks w))))]"
    if "\<forall>i. db_ok e i" "q \<noteq> []" "\<not> starts_with ''@'' q" "parseInt q = Some n"
  proof -
    have "(\<lambda>u. Some (userId u) = parseInt q) = (\<lambda>u. userId u = n)"
      using that(4) by auto
    then show ?thesis
      using userinfo_handler_lookup [OF assms that(1,2), of
          "\<lambda>u. Some (userId u) = parseInt q" w] that(3,4) by simp
  qed
  show ?thesis
    using userinfo_handler_replies [OF assms, of w cap] userinfo_handler_invalid [OF assms, of q w]
      at num route_userinfo_at route_userinfo_nan parseInt_nan
    by blast
qed

theorem userinfo_replies_when_gateway_accepts_example:
  "userinfo_handler (sample_env (Some ''7'')) (sample_world [sample_user 9 0] []) (sample_msg 7 [])
     (Some ''notanumber'') =
     (Returned, (sample_world [sample_user 9 0] [])\<lparr>send_ops := 1, trace := [Sent 7 InvalidUserId]\<rparr>) \<and>
   trace (snd (userinfo_handler (sample_env (Some ''7'')) (sample_world [sample_user 9 0] [])
     (sample_msg 7 []) (Some ''@nonexistent''))) = [Sent 7 UserNotFound] \<and>
   trace (snd (userinfo_handler (sample_env (Some ''7'')) (sample_world [sample_user 9 0] [])
     (sample_msg 7 []) (Some ''10''))) = [Sent 7 UserNotFound] \<and>
   trace (snd (userinfo_handler (sample_env (Some ''7'')) (sample_world [sample_user 9 0] [])
     (sample_msg 7 []) (Some ''@bob''))) = [Sent 7 (UserInfoReply (sample_user 9 0) 0)]"
proof -
  let ?e = "sample_env (Some ''7'')" and ?w = "sample_world [sample_user 9 0] []"
  have a: "\<not> unauthorized ?e (tg_id (msg_from (sample_msg 7 [])))"
    by (simp add: unauthorized_def sample_env_def sample_msg_def sample_sender_def toString_def
        digits_of.simps digit_char_def)
  have s: "\<forall>i. send_ok ?e i" and d: "\<forall>i. db_ok ?e i"
    by (simp_all add: sample_env_def)
  have w: "send_ops ?w = 0" "trace ?w = []" "users ?w = [sample_user 9 0]" "clicks ?w = []"
    by (simp_all add: sample_world_def)
  have c: "msg_chat_id (sample_msg 7 []) = 7" by (simp add: sample_msg_def)
  have p: "parseInt ''10'' = Some 10"
    by (simp add: parseInt_def is_space_def is_radix_digit_def digit_value_def)
  have u: "userId (sample_user 9 0) = 9" "username (sample_user 9 0) = Some ''bob''"
    by (simp_all add: sample_user_def)
  have 1: "userinfo_handler ?e ?w (sample_msg 7 []) (Some ''notanumber'') =
     (Returned, ?w\<lparr>send_ops := 1, trace := [Sent 7 InvalidUserId]\<rparr>)"
    using userinfo_replies_when_gateway_accepts [OF a s, of ?w None "''notanumber''" 0]
    by (simp add: w c parseInt_nan)
  have 2: "trace (snd (userinfo_handler ?e ?w (sample_msg 7 []) (Some ''@nonexistent''))) =
      [Sent 7 UserNotFound]"
    using userinfo_replies_when_gateway_accepts [OF a s, of ?w None "''@nonexistent''" 0] d
    by (simp add: w c u)
  have 3: "trace (snd (userinfo_handler ?e ?w (sample_msg 7 []) (Some ''10''))) =
      [Sent 7 UserNotFound]"
    using userinfo_replies_when_gateway_accepts [OF a s, of ?w None "''10''" 10] d
    by (simp add: w c u p)
  have 4: "trace (snd (userinfo_handler ?e ?w (sample_msg 7 []) (Some ''@bob''))) =
      [Sent 7 (UserInfoReply (sample_user 9 0) 0)]"
    using userinfo_replies_when_gateway_accepts [OF a s, of ?w None "''@bob''" 0] d
    by (simp add: w c u)
  show ?thesis using 1 2 3 4 by simp
qed

text \<open>
  Without the assumption on the gateway: the handler makes at least one send, and it
  returns normally exactly when the last send it makes is accepted. When that send is
  refused, the promise of the handler rejects.
\<close>

lemma userinfo_show_attempts:
  "\<exists>ev. trace (snd (userinfo_show e w c u)) = trace w @ ev \<and>
        (fst (userinfo_show e w c u) \<longrightarrow> (\<exists>r. ev = [Sent c r])) \<and>
        (\<not> fst (userinfo_show e w c u) \<longrightarrow> ev = [] \<or> (\<exists>r. ev = [SendFailed c r]))"
  by (cases u)
    (auto simp: userinfo_show_def sendMessage_def and_then_def countDocuments_def db_op_def Let_def)

lemma userinfo_try_attempts:
  "\<exists>ev. trace (snd (userinfo_try e w c q)) = trace w @ ev \<and>
        (fst (userinfo_try e w c q) \<longrightarrow> (\<exists>r. ev = [Sent c r])) \<and>
        (\<not> fst (userinfo_try e w c q) \<longrightarrow> ev = [] \<or> (\<exists>r. ev = [SendFailed c r]))"
proof -
  have look: "\<exists>ev. trace (snd (and_then (findOne e w (users w) P) (\<lambda>user w1. userinfo_show e w1 c user)))
           = trace w @ ev \<and>
        (fst (and_then (findOne e w (users w) P) (\<lambda>user w1. userinfo_show e w1 c user)) \<longrightarrow>
           (\<exists>r. ev = [Sent c r])) \<and>
        (\<not> fst (and_then (findOne e w (users w) P) (\<lambda>user w1. userinfo_show e w1 c user)) \<longrightarrow>
           ev = [] \<or> (\<exists>r. ev = [SendFailed c r]))" for P
  proof (cases "db_ok e (db_ops w)")
    case True
    then show ?thesis
      using userinfo_show_attempts [of e "w\<lparr>db_ops := Suc (db_ops w)\<rparr>" c "find P (users w)"]
      by (simp add: findOne_def db_op_def and_then_def)
  next
    case False
    then show ?thesis by (simp add: findOne_def db_op_def and_then_def)
  qed
  show ?thesis
  proof (cases "starts_with ''@'' q")
    case True
    then show ?thesis using look by (simp add: userinfo_try_def)
  next
    case False
    show ?thesis
    proof (cases "parseInt q")
      case None
      with False show ?thesis by (simp add: userinfo_try_def sendMessage_def Let_def)
    next
      case (Some n)
      with False show ?thesis using look by (simp add: userinfo_try_def)
    qed
  qed
qed

lemma catch_reply_outcome:
  assumes "trace (snd b) = trace w @ ev"
    and "fst b \<longrightarrow> (\<exists>r. ev = [Sent c r])"
    and "\<not> fst b \<longrightarrow> ev = [] \<or> (\<exists>r. ev = [SendFailed c r])"
  shows "\<exists>evs. trace (snd (catch_reply e b c err)) = trace w @ evs \<and> evs \<noteq> [] \<and>
           (fst (catch_reply e b c err) = Returned \<longrightarrow> (\<exists>r. last evs = Sent c r)) \<and>
           (fst (catch_reply e b c err) = Rejected \<longrightarrow> last evs = SendFailed c err)"
proof (cases b)
  case (Pair ok w1)
  show ?thesis
  proof (cases ok)
    case True
    with Pair assms show ?thesis by (auto simp: catch_reply_def)
  next
    case False
    with Pair assms show ?thesis
      by (auto simp: catch_reply_def reply_return_def sendMessage_def Let_def)
  qed
qed

lemma reply_return_outcome:
  "\<exists>evs. trace (snd (reply_return e w c r)) = trace w @ evs \<and> evs \<noteq> [] \<and>
           (fst (reply_return e w c r) = Returned \<longrightarrow> (\<exists>r. last evs = Sent c r)) \<and>
           (fst (reply_return e w c r) = Rejected \<longrightarrow> (\<exists>r. last evs = SendFailed c r))"
  by (simp add: reply_return_def sendMessage_def Let_def)

lemma userinfo_handler_outcome:
  assumes "\<not> unauthorized e (tg_id (msg_from m))"
  shows "\<exists>evs. trace (snd (userinfo_handler e w m cap)) = trace w @ evs \<and> evs \<noteq> [] \<and>
           (fst (userinfo_handler e w m cap) = Returned \<longrightarrow>
              (\<exists>r. last evs = Sent (msg_chat_id m) r)) \<and>
           (fst (userinfo_handler e w m cap) = Rejected \<longrightarrow>
              (\<exists>r. last evs = SendFailed (msg_chat_id m) r))"
proof (cases cap)
  case None
  then show ?thesis
    using assms reply_return_outcome [of e w "msg_chat_id m" Usage]
    by (simp add: userinfo_handler_def)
next
  case (Some q)
  show ?thesis
  proof (cases "q = []")
    case True
    with Some show ?thesis
      using assms reply_return_outcome [of e w "msg_chat_id m" Usage]
      by (simp add: userinfo_handler_def)
  next
    case False
    from userinfo_try_attempts [of e w "msg_chat_id m" q]
    obtain ev where ev: "trace (snd (userinfo_try e w (msg_chat_id m) q)) = trace w @ ev"
      "fst (userinfo_try e w (msg_chat_id m) q) \<longrightarrow> (\<exists>r. ev = [Sent (msg_chat_id m) r])"
      "\<not> fst (userinfo_try e w (msg_chat_id m) q) \<longrightarrow>
         ev = [] \<or> (\<exists>r. ev = [SendFailed (msg_chat_id m) r])"
      by blast
    from catch_reply_outcome [OF ev, of e UserInfoError]
    show ?thesis
      using assms Some False by (auto simp: userinfo_handler_def Let_def)
  qed
qed

text \<open>
  \<^bold>\<open>C7.\<close> The handler can leave an unhandled rejection. The usage reply is awaited
  outside every \<open>try\<close>, and the \<open>catch\<close> block awaits a send of its own; a send that the
  gateway refuses there rejects the promise of the handler, and nothing catches it. With
  admin 7 configured and a gateway that refuses every send, the admin's \<open>/userinfo\<close> with
  no argument rejects after the refused usage reply, \<open>/userinfo notanumber\<close> rejects after
  the refused invalid-id reply and the refused error reply, and \<open>/userinfo @nonexistent\<close>
  rejects after the refused not-found reply and the refused error reply. (The \<open>/start\<close>
  handler wraps its send in a \<open>try\<close> whose \<open>catch\<close> only logs, and so always returns.)
\<close>

theorem userinfo_rejects_when_send_refused:
  "userinfo_handler down_env (sample_world [sample_user 9 0] []) (sample_msg 7 []) None =
     (Rejected, (sample_world [sample_user 9 0] [])
        \<lparr>send_ops := 1, trace := [SendFailed 7 Usage]\<rparr>) \<and>
   userinfo_handler down_env (sample_world [sample_user 9 0] []) (sample_msg 7 [])
       (Some ''notanumber'') =
     (Rejected, (sample_world [sample_user 9 0] [])
        \<lparr>send_ops := 2, trace := [SendFailed 7 InvalidUserId, SendFailed 7 UserInfoError]\<rparr>) \<and>
   userinfo_handler down_env (sample_world [sample_user 9 0] []) (sample_msg 7 [])
       (Some ''@nonexistent'') =
     (Rejected, (sample_world [sample_user 9 0] [])
        \<lparr>db_ops := 1, send_ops := 2,
          trace := [SendFailed 7 UserNotFound, SendFailed 7 UserInfoError]\<rparr>)"
proof -
  have a: "\<not> unauthorized down_env (tg_id (msg_from (sample_msg 7 [])))"
    by (simp add: unauthorized_def down_env_def sample_env_def sample_msg_def sample_sender_def
        toString_def digits_of.simps digit_char_def)
  have p: "parseInt ''notanumber'' = None"
    by (simp add: parseInt_def is_space_def is_radix_digit_def digit_value_def)
  show ?thesis
    using a p
    by (simp add: userinfo_handler_def userinfo_try_def userinfo_show_def catch_reply_def
        reply_return_def sendMessage_def findOne_def and_then_def db_op_def down_env_def
        sample_env_def sample_world_def sample_msg_def sample_user_def Let_def)
qed

section \<open>/stats and the boundary of today\<close>

lemma stats_handler_reply:
  assumes "\<not> unauthorized e (tg_id (msg_from m))" and "\<forall>i. db_ok e i"
    and "send_ok e (send_ops w)"
  shows "trace (snd (stats_handler e w m)) = trace w @
           [Sent (msg_chat_id m)
              (StatsReply (length (users w))
                 (length (filter (\<lambda>u. local_midnight e (clock w) \<le> firstSeen u) (users w)))
                 (length (filter (\<lambda>u. days_before e 7 (clock w) \<le> firstSeen u) (users w)))
                 (length (filter (\<lambda>u. days_before e 30 (clock w) \<le> firstSeen u) (users w)))
                 (length (filter isPremium (users w)))
                 (length (clicks w)))]"
  using assms
  by (simp add: stats_handler_def stats_try_def catch_reply_def and_then_def countDocuments_def
      db_op_def sendMessage_def Let_def)

text \<open>
  \<^bold>\<open>C8.\<close> For an authorized caller, a store that answers and a gateway that accepts the
  reply, the "new today" number of \<open>/stats\<close> is the number of records whose first-seen
  date is at or after the local midnight of the current day, the date that
  \<open>setHours(0, 0, 0, 0)\<close> gives for now (\<open>$gte\<close>), whatever the zone rules of the host are.
  A record first seen exactly at that instant is among the counted ones; a record first
  seen at any instant before it, as 23:59 of the day before is, is not.
\<close>

theorem stats_new_today_boundary:
  assumes "\<not> unauthorized e (tg_id (msg_from m))" and "\<forall>i. db_ok e i"
    and "send_ok e (send_ops w)"
  shows "trace (snd (stats_handler e w m)) = trace w @
           [Sent (msg_chat_id m)
              (StatsReply (length (users w))
                 (length (filter (\<lambda>u. local_midnight e (clock w) \<le> firstSeen u) (users w)))
                 (length (filter (\<lambda>u. days_before e 7 (clock w) \<le> firstSeen u) (users w)))
                 (length (filter (\<lambda>u. days_before e 30 (clock w) \<le> firstSeen u) (users w)))
                 (length (filter isPremium (users w)))
                 (length (clicks w)))] \<and>
         (u \<in> set (users w) \<and> firstSeen u = local_midnight e (clock w) \<longrightarrow>
            u \<in> set (filter (\<lambda>u. local_midnight e (clock w) \<le> firstSeen u) (users w))) \<and>
         (firstSeen u < local_midnight e (clock w) \<longrightarrow>
            u \<notin> set (filter (\<lambda>u. local_midnight e (clock w) \<le> firstSeen u) (users w)))"
  using stats_handler_reply [OF assms] by simp

theorem stats_new_today_boundary_witness:
  "trace (snd (stats_handler (sample_env None)
      (sample_world [sample_user 8 0, sample_user 9 (- 60000)] []) (sample_msg 7 []))) =
     [Sent 7 (StatsReply 2 1 2 2 0 0)] \<and>
   trace (snd (stats_handler ny_env ny_world (sample_msg 7 []))) =
     [Sent 7 (StatsReply 2 1 2 2 0 0)] \<and>
   filter (\<lambda>u. local_midnight ny_env (clock ny_world) \<le> firstSeen u) (users ny_world) =
     [sample_user 8 1710046800000]"
proof -
  let ?e = "sample_env None" and ?w = "sample_world [sample_user 8 0, sample_user 9 (- 60000)] []"
  have a: "\<not> unauthorized ?e (tg_id (msg_from (sample_msg 7 [])))"
    "\<not> unauthorized ny_env (tg_id (msg_from (sample_msg 7 [])))"
    by (simp_all add: unauthorized_def ny_env_def sample_env_def truthy_def)
  have d: "\<forall>i. db_ok ?e i" "\<forall>i. db_ok ny_env i"
    by (simp_all add: ny_env_def sample_env_def)
  have s: "send_ok ?e (send_ops ?w)" "send_ok ny_env (send_ops ny_world)"
    by (simp_all add: ny_env_def sample_env_def)
  have 1: "trace (snd (stats_handler ?e ?w (sample_msg 7 []))) = [Sent 7 (StatsReply 2 1 2 2 0 0)]"
    using stats_new_today_boundary [OF a(1) d(1) s(1), of "sample_user 8 0"]
    by (simp add: sample_env_def sample_world_def sample_msg_def sample_user_def)
  have 2: "trace (snd (stats_handler ny_env ny_world (sample_msg 7 []))) =
      [Sent 7 (StatsReply 2 1 2 2 0 0)]"
    using stats_new_today_boundary [OF a(2) d(2) s(2), of "sample_user 8 1710046800000"]
    by (simp add: ny_env_def ny_world_def ny_midnight_def ny_days_before_def sample_env_def
        sample_world_def sample_msg_def sample_user_def)
  have 3: "filter (\<lambda>u. local_midnight ny_env (clock ny_world) \<le> firstSeen u) (users ny_world) =
     [sample_user 8 1710046800000]"
    by (simp add: ny_env_def ny_world_def ny_midnight_def sample_env_def sample_world_def
        sample_user_def)
  show ?thesis using 1 2 3 by simp
qed

section \<open>/toplinks\<close>

lemma group_stage_keys: "map fst (group_stage docs) = remdups (map lc_wallpaperId docs)"
  by (simp add: group_stage_def comp_def)

lemma group_stage_set:
  "set (group_stage docs) =
     (\<lambda>k. (k, length (filter (\<lambda>d. lc_wallpaperId d = k) docs))) ` lc_wallpaperId ` set docs"
  by (auto simp: group_stage_def)

lemma group_stage_distinct: "distinct (map fst (group_stage docs))"
  by (simp add: group_stage_keys)

lemma sort_stage_set: "set (sort_stage rows) = set rows"
  by (simp add: sort_stage_def)

lemma sort_stage_length: "length (sort_stage rows) = length rows"
  by (simp add: sort_stage_def)

lemma sort_stage_distinct: "distinct (map fst rows) \<Longrightarrow> distinct (map fst (sort_stage rows))"
  by (simp add: distinct_map sort_stage_def)

lemma sort_stage_sorted: "sorted_wrt (\<lambda>a b. snd b \<le> snd a) (sort_stage rows)"
proof -
  have "sorted (map (\<lambda>r. - int (snd r)) (sort_stage rows))"
    by (simp add: sort_stage_def)
  then show ?thesis by (simp add: sorted_map)
qed

lemma pipeline_distinct:
  "distinct (map fst (limit_stage L (sort_stage (group_stage docs))))"
  using sort_stage_distinct [OF group_stage_distinct, of docs]
  by (simp add: limit_stage_def take_map [symmetric])

lemma pipeline_rows:
  assumes "(k, c) \<in> set (limit_stage L (sort_stage (group_stage docs)))"
  shows "c = length (filter (\<lambda>d. lc_wallpaperId d = k) docs) \<and> 0 < c \<and>
         k \<in> lc_wallpaperId ` set docs"
proof -
  have "(k, c) \<in> set (group_stage docs)"
    using assms set_take_subset [of "nat L" "sort_stage (group_stage docs)"]
    by (auto simp: limit_stage_def sort_stage_set)
  then have c: "c = length (filter (\<lambda>d. lc_wallpaperId d = k) docs)"
    and k: "k \<in> lc_wallpaperId ` set docs"
    by (auto simp: group_stage_set)
  from k have "filter (\<lambda>d. lc_wallpaperId d = k) docs \<noteq> []"
    by (auto simp: filter_empty_conv)
  with c k show ?thesis by simp
qed

lemma pipeline_sorted:
  "sorted_wrt (\<lambda>a b. snd b \<le> snd a) (limit_stage L (sort_stage (group_stage docs)))"
  using sort_stage_sorted [of "group_stage docs"]
  by (simp add: limit_stage_def sorted_wrt_take)

lemma pipeline_length:
  "length (limit_stage L (sort_stage (group_stage docs))) =
     min (nat L) (card (lc_wallpaperId ` set docs))"
  by (simp add: limit_stage_def sort_stage_length group_stage_def length_remdups_card_conv
      min.commute)

lemma pipeline_top:
  assumes "k \<in> lc_wallpaperId ` set docs"
    and "k \<notin> fst ` set (limit_stage L (sort_stage (group_stage docs)))"
    and "r \<in> set (limit_stage L (sort_stage (group_stage docs)))"
  shows "length (filter (\<lambda>d. lc_wallpaperId d = k) docs) \<le> snd r"
proof -
  let ?s = "sort_stage (group_stage docs)"
  let ?c = "length (filter (\<lambda>d. lc_wallpaperId d = k) docs)"
  have "(k, ?c) \<in> set ?s"
    using assms(1) by (auto simp: sort_stage_set group_stage_set)
  moreover have "set ?s = set (take (nat L) ?s) \<union> set (drop (nat L) ?s)"
    by (metis append_take_drop_id set_append)
  moreover have "(k, ?c) \<notin> set (take (nat L) ?s)"
    using assms(2) by (force simp: limit_stage_def)
  ultimately have d: "(k, ?c) \<in> set (drop (nat L) ?s)" by blast
  have "sorted_wrt (\<lambda>a b. snd b \<le> snd a) (take (nat L) ?s @ drop (nat L) ?s)"
    using sort_stage_sorted [of "group_stage docs"] by simp
  then have "\<forall>x\<in>set (take (nat L) ?s). \<forall>y\<in>set (drop (nat L) ?s). snd y \<le> snd x"
    unfolding sorted_wrt_append by blast
  with d assms(3) show ?thesis by (force simp: limit_stage_def)
qed

lemma pipeline_empty:
  "0 < L \<Longrightarrow> (limit_stage L (sort_stage (group_stage docs)) = []) = (docs = [])"
proof -
  assume "0 < L"
  have "(limit_stage L (sort_stage (group_stage docs)) = []) =
        (length (limit_stage L (sort_stage (group_stage docs))) = 0)"
    by simp
  also have "\<dots> = (card (lc_wallpaperId ` set docs) = 0)"
    unfolding pipeline_length using \<open>0 < L\<close> by (auto simp: min_def)
  also have "\<dots> = (docs = [])" by simp
  finally show ?thesis .
qed

lemma is_digit_cases:
  "is_digit c \<Longrightarrow> \<not> is_space c \<and> c \<noteq> CHR ''-'' \<and> c \<noteq> CHR ''+'' \<and> c \<noteq> CHR ''x'' \<and>
     c \<noteq> CHR ''X'' \<and> is_radix_digit 10 c"
  by (auto simp: is_digit_def is_space_def is_radix_digit_def digit_value_def)

lemma parseInt_digits:
  assumes "d \<noteq> []" and "\<forall>c\<in>set d. is_digit c"
  shows "parseInt d = Some (int (digits_value 10 0 d))"
proof -
  from assms obtain c cs where d: "d = c # cs" by (cases d) auto
  have c: "is_digit c" using assms(2) d by simp
  note cc = is_digit_cases [OF c]
  have hex: "\<not> starts_with ''0x'' d \<and> \<not> starts_with ''0X'' d"
  proof (cases cs)
    case Nil
    then show ?thesis by (simp add: d)
  next
    case (Cons c' cs')
    then have "is_digit c'" using assms(2) d by simp
    from is_digit_cases [OF this] show ?thesis by (auto simp: d Cons)
  qed
  have tw: "takeWhile (is_radix_digit 10) d = d"
    using assms(2) is_digit_cases by simp
  have "dropWhile is_space d = d" using cc by (simp add: d)
  moreover have "\<not> starts_with ''-'' d \<and> \<not> starts_with ''+'' d" using cc by (auto simp: d)
  ultimately show ?thesis
    using hex assms(1) by (simp add: parseInt_def Let_def tw)
qed

lemma opt_number_digits:
  "opt_number s = Some d \<Longrightarrow> d \<noteq> [] \<and> (\<forall>c\<in>set d. is_digit c)"
  by (auto simp: opt_number_def Let_def split: if_splits dest: set_takeWhileD)

lemma parse_limit_positive:
  assumes "cap = None \<or> cap = opt_number s"
  shows "0 < parse_limit cap"
proof (cases cap)
  case None
  then show ?thesis by (simp add: parse_limit_def)
next
  case (Some d)
  with assms have "opt_number s = Some d" by simp
  from opt_number_digits [OF this] have "parseInt d = Some (int (digits_value 10 0 d))"
    by (simp add: parseInt_digits)
  then show ?thesis by (simp add: parse_limit_def Some)
qed

lemma search_at_toplinks:
  "search at_toplinks t = Some cap \<Longrightarrow> \<exists>s. cap = opt_number s"
  by (induction t) (auto simp: at_toplinks_def split: if_splits option.splits)

lemma fixture_top3:
  "limit_stage 3 (sort_stage (group_stage fixture)) = [(''A'', 5), (''B'', 3), (''C'', 3)]"
  by (simp add: fixture_def group_stage_def sort_stage_def limit_stage_def sample_click_def)

lemma toplinks_handler_reply:
  assumes "\<not> unauthorized e (tg_id (msg_from m))" and "db_ok e (db_ops w)"
    and "send_ok e (send_ops w)" and "0 < parse_limit cap"
  shows "toplinks_handler e w m cap =
           (Returned, w\<lparr>db_ops := Suc (db_ops w), send_ops := Suc (send_ops w),
              trace := trace w @
                [Sent (msg_chat_id m)
                   (if clicks w = [] then NoClicks
                    else TopLinksReply (parse_limit cap)
                      (limit_stage (parse_limit cap) (sort_stage (group_stage (clicks w)))))]\<rparr>)"
  using assms pipeline_empty [OF assms(4), of "clicks w"]
  by (simp add: toplinks_handler_def toplinks_try_def aggregate_top_def db_op_def and_then_def
      catch_reply_def sendMessage_def Let_def)

lemma fixture_any_order:
  assumes ids: "lc_wallpaperId ` set docs = {''A'', ''B'', ''C'', ''D''}"
    and a: "length (filter (\<lambda>d. lc_wallpaperId d = ''A'') docs) = 5"
    and b: "length (filter (\<lambda>d. lc_wallpaperId d = ''B'') docs) = 3"
    and c: "length (filter (\<lambda>d. lc_wallpaperId d = ''C'') docs) = 3"
    and d: "length (filter (\<lambda>d. lc_wallpaperId d = ''D'') docs) = 1"
  shows "limit_stage 3 (sort_stage (group_stage docs)) = [(''A'', 5), (''B'', 3), (''C'', 3)] \<or>
         limit_stage 3 (sort_stage (group_stage docs)) = [(''A'', 5), (''C'', 3), (''B'', 3)]"
proof -
  let ?rows = "limit_stage 3 (sort_stage (group_stage docs))"
  let ?cnt = "\<lambda>k. length (filter (\<lambda>d. lc_wallpaperId d = k) docs)"
  have card: "card (lc_wallpaperId ` set docs) = 4"
    unfolding ids by simp
  have "length ?rows = 3"
    unfolding pipeline_length card by simp
  then obtain r1 r2 r3 where rows: "?rows = [r1, r2, r3]"
    by (auto simp: length_Suc_conv numeral_3_eq_3)
  have row: "snd r = ?cnt (fst r) \<and> fst r \<in> {''A'', ''B'', ''C'', ''D''}" if "r \<in> set ?rows" for r
    using pipeline_rows [of "fst r" "snd r" 3 docs] that ids by simp
  have dist: "fst r1 \<noteq> fst r2 \<and> fst r1 \<noteq> fst r3 \<and> fst r2 \<noteq> fst r3"
    using pipeline_distinct [of 3 docs] unfolding rows by simp
  have sorted: "snd r2 \<le> snd r1 \<and> snd r3 \<le> snd r2"
    using pipeline_sorted [of 3 docs] unfolding rows by simp
  have top: "?cnt k \<le> snd r3 \<and> ?cnt k \<le> snd r1"
    if "k \<in> {''A'', ''B'', ''C'', ''D''}" "k \<noteq> fst r1" "k \<noteq> fst r2" "k \<noteq> fst r3" for k
    using pipeline_top [of k docs 3 r3] pipeline_top [of k docs 3 r1] that ids unfolding rows by simp
  have r1: "snd r1 = ?cnt (fst r1) \<and> fst r1 \<in> {''A'', ''B'', ''C'', ''D''}"
    and r2: "snd r2 = ?cnt (fst r2) \<and> fst r2 \<in> {''A'', ''B'', ''C'', ''D''}"
    and r3: "snd r3 = ?cnt (fst r3) \<and> fst r3 \<in> {''A'', ''B'', ''C'', ''D''}"
    using row unfolding rows by simp_all
  obtain k1 n1 k2 n2 k3 n3 where p: "r1 = (k1, n1)" "r2 = (k2, n2)" "r3 = (k3, n3)"
    by (metis prod.collapse)
  have cnt: "k \<in> {''A'', ''B'', ''C''} \<Longrightarrow> 3 \<le> ?cnt k" for k
    using a b c by auto
  have in3: "k \<in> {''A'', ''B'', ''C'', ''D''} \<Longrightarrow> k \<noteq> ''D'' \<Longrightarrow> k \<in> {''A'', ''B'', ''C''}" for k
    by auto
  have m1: "k1 \<noteq> ''D''"
  proof
    assume "k1 = ''D''"
    then have "n1 = 1" "k2 \<noteq> ''D''" using r1 d dist unfolding p by auto
    moreover have "3 \<le> n2" using cnt [of k2] in3 [of k2] r2 \<open>k2 \<noteq> ''D''\<close> unfolding p by simp
    ultimately show False using sorted unfolding p by simp
  qed
  have m2: "k2 \<noteq> ''D''"
  proof
    assume "k2 = ''D''"
    then have "n2 = 1" "k3 \<noteq> ''D''" using r2 d dist unfolding p by auto
    moreover have "3 \<le> n3" using cnt [of k3] in3 [of k3] r3 \<open>k3 \<noteq> ''D''\<close> unfolding p by simp
    ultimately show False using sorted unfolding p by simp
  qed
  have m3: "k3 \<noteq> ''D''"
  proof
    assume k3: "k3 = ''D''"
    then have n3: "n3 = 1" using r3 d unfolding p by simp
    have "\<exists>k\<in>{''A'', ''B'', ''C''}. k \<noteq> k1 \<and> k \<noteq> k2"
      by (cases "k1 = ''A'' \<or> k2 = ''A''"; cases "k1 = ''B'' \<or> k2 = ''B''") auto
    then obtain k where k: "k \<in> {''A'', ''B'', ''C''}" "k \<noteq> k1" "k \<noteq> k2" by blast
    then have "k \<noteq> k3" using k3 by auto
    with k top [of k] have "?cnt k \<le> n3" unfolding p by auto
    with cnt [OF k(1)] n3 show False by simp
  qed
  have s1: "k1 \<in> {''A'', ''B'', ''C''}" and s2: "k2 \<in> {''A'', ''B'', ''C''}"
    and s3: "k3 \<in> {''A'', ''B'', ''C''}"
    using in3 [of k1] in3 [of k2] in3 [of k3] r1 r2 r3 m1 m2 m3 unfolding p by simp_all
  have e1: "n1 = ?cnt k1" and e2: "n2 = ?cnt k2" and e3: "n3 = ?cnt k3"
    using r1 r2 r3 unfolding p by simp_all
  have d': "k1 \<noteq> k2" "k1 \<noteq> k3" "k2 \<noteq> k3" using dist unfolding p by simp_all
  have o: "n2 \<le> n1" "n3 \<le> n2" using sorted unfolding p by simp_all
  have f1: "k1 = ''A''"
  proof (rule ccontr)
    assume n: "k1 \<noteq> ''A''"
    then have "n1 = 3" using s1 e1 b c by auto
    moreover have "k2 = ''A'' \<or> k3 = ''A''" using s1 s2 s3 d' n by auto
    then have "n2 = 5 \<or> n3 = 5" using e2 e3 a by auto
    ultimately show False using o by auto
  qed
  have "n1 = 5" using f1 e1 a by simp
  moreover have "(k2 = ''B'' \<and> k3 = ''C'') \<or> (k2 = ''C'' \<and> k3 = ''B'')"
    using s2 s3 d' f1 by auto
  moreover have "k2 \<noteq> ''A'' \<Longrightarrow> n2 = 3" "k3 \<noteq> ''A'' \<Longrightarrow> n3 = 3"
    using s2 s3 e2 e3 b c by auto
  ultimately show ?thesis
    unfolding rows p using f1 d' by auto
qed

text \<open>
  \<^bold>\<open>C6.\<close> Let \<open>rows\<close> be what the pipeline group, sort, limit \<open>L\<close> gives on the LinkClick
  documents \<open>docs\<close>. No wallpaper id occurs in two rows; every row holds a wallpaper id that
  occurs in \<open>docs\<close> with the number of its documents; the rows are in descending order of
  count; there are \<open>min L n\<close> rows for \<open>n\<close> distinct wallpaper ids; and a wallpaper id left
  out has no more clicks than any row. The limit read from a \<open>/toplinks\<close> text is positive.
  For an authorized caller, a store that answers and a gateway that accepts the reply, the
  handler sends the "no clicks" text when there is no click at all and the rows otherwise.
  On every collection with \<open>A\<close> five times, \<open>B\<close> and \<open>C\<close> three times each and \<open>D\<close> once,
  in whatever order the clicks were stored, limit 3 gives three rows: \<open>A\<close> with 5 first,
  then \<open>B\<close> and \<open>C\<close> with 3 each, in one order or the other.
\<close>

theorem toplinks_rows:
  assumes "rows = limit_stage L (sort_stage (group_stage docs))"
  shows "distinct (map fst rows) \<and>
         (\<forall>r\<in>set rows. snd r = length (filter (\<lambda>d. lc_wallpaperId d = fst r) docs) \<and>
            0 < snd r \<and> fst r \<in> lc_wallpaperId ` set docs) \<and>
         sorted_wrt (\<lambda>a b. snd b \<le> snd a) rows \<and>
         length rows = min (nat L) (card (lc_wallpaperId ` set docs)) \<and>
         (\<forall>k\<in>lc_wallpaperId ` set docs. k \<notin> fst ` set rows \<longrightarrow>
            (\<forall>r\<in>set rows. length (filter (\<lambda>d. lc_wallpaperId d = k) docs) \<le> snd r)) \<and>
         (search at_toplinks t = Some cap \<longrightarrow> 0 < parse_limit cap) \<and>
         (\<not> unauthorized e (tg_id (msg_from m)) \<and> db_ok e (db_ops w) \<and> send_ok e (send_ops w) \<and>
          L = parse_limit cap \<and> 0 < L \<and> docs = clicks w \<longrightarrow>
            toplinks_handler e w m cap =
              (Returned, w\<lparr>db_ops := Suc (db_ops w), send_ops := Suc (send_ops w),
                 trace := trace w @
                   [Sent (msg_chat_id m)
                      (if docs = [] then NoClicks else TopLinksReply L rows)]\<rparr>)) \<and>
         (lc_wallpaperId ` set docs = {''A'', ''B'', ''C'', ''D''} \<and>
          length (filter (\<lambda>d. lc_wallpaperId d = ''A'') docs) = 5 \<and>
          length (filter (\<lambda>d. lc_wallpaperId d = ''B'') docs) = 3 \<and>
          length (filter (\<lambda>d. lc_wallpaperId d = ''C'') docs) = 3 \<and>
          length (filter (\<lambda>d. lc_wallpaperId d = ''D'') docs) = 1 \<and> L = 3 \<longrightarrow>
            rows = [(''A'', 5), (''B'', 3), (''C'', 3)] \<or>
            rows = [(''A'', 5), (''C'', 3), (''B'', 3)])"
proof -
  have 1: "distinct (map fst rows)"
    unfolding assms by (rule pipeline_distinct)
  have 2: "\<forall>r\<in>set rows. snd r = length (filter (\<lambda>d. lc_wallpaperId d = fst r) docs) \<and>
            0 < snd r \<and> fst r \<in> lc_wallpaperId ` set docs"
    unfolding assms using pipeline_rows [of _ _ L docs] by (metis prod.collapse)
  have 3: "sorted_wrt (\<lambda>a b. snd b \<le> snd a) rows"
    unfolding assms by (rule pipeline_sorted)
  have 4: "length rows = min (nat L) (card (lc_wallpaperId ` set docs))"
    unfolding assms by (rule pipeline_length)
  have 5: "\<forall>k\<in>lc_wallpaperId ` set docs. k \<notin> fst ` set rows \<longrightarrow>
            (\<forall>r\<in>set rows. length (filter (\<lambda>d. lc_wallpaperId d = k) docs) \<le> snd r)"
    unfolding assms using pipeline_top [of _ docs L] by blast
  have 6: "search at_toplinks t = Some cap \<longrightarrow> 0 < parse_limit cap"
    using search_at_toplinks [of t cap] parse_limit_positive [of cap] by blast
  have 7: "toplinks_handler e w m cap =
              (Returned, w\<lparr>db_ops := Suc (db_ops w), send_ops := Suc (send_ops w),
                 trace := trace w @
                   [Sent (msg_chat_id m)
                      (if docs = [] then NoClicks else TopLinksReply L rows)]\<rparr>)"
    if "\<not> unauthorized e (tg_id (msg_from m))" "db_ok e (db_ops w)" "send_ok e (send_ops w)"
      "L = parse_limit cap" "0 < L" "docs = clicks w"
    using toplinks_handler_reply [OF that(1,2,3), of cap] that(4,5,6) assms by simp
  have 8: "rows = [(''A'', 5), (''B'', 3), (''C'', 3)] \<or> rows = [(''A'', 5), (''C'', 3), (''B'', 3)]"
    if "lc_wallpaperId ` set docs = {''A'', ''B'', ''C'', ''D''}"
      "length (filter (\<lambda>d. lc_wallpaperId d = ''A'') docs) = 5"
      "length (filter (\<lambda>d. lc_wallpaperId d = ''B'') docs) = 3"
      "length (filter (\<lambda>d. lc_wallpaperId d = ''C'') docs) = 3"
      "length (filter (\<lambda>d. lc_wallpaperId d = ''D'') docs) = 1" "L = 3"
    using fixture_any_order [OF that(1-5)] assms that(6) by simp
  show ?thesis using 1 2 3 4 5 6 7 8 by blast
qed

theorem toplinks_rows_witness:
  "toplinks_handler (sample_env None) (sample_world [] fixture) (sample_msg 7 []) (Some ''3'') =
     (Returned, (sample_world [] fixture)\<lparr>db_ops := 1, send_ops := 1,
        trace := [Sent 7 (TopLinksReply 3 [(''A'', 5), (''B'', 3), (''C'', 3)])]\<rparr>) \<and>
   toplinks_handler (sample_env None) (sample_world [] []) (sample_msg 7 []) None =
     (Returned, (sample_world [] [])\<lparr>db_ops := 1, send_ops := 1, trace := [Sent 7 NoClicks]\<rparr>)"
proof -
  let ?e = "sample_env None"
  have a: "\<not> unauthorized ?e (tg_id (msg_from (sample_msg 7 [])))"
    by (simp add: unauthorized_def sample_env_def truthy_def)
  have o: "db_ok ?e n" "send_ok ?e n" for n by (simp_all add: sample_env_def)
  have p: "parse_limit (Some ''3'') = 3" "parse_limit None = 10"
    by (simp_all add: parse_limit_def parseInt_def is_space_def is_radix_digit_def digit_value_def)
  have w: "db_ops (sample_world [] cs) = 0" "send_ops (sample_world [] cs) = 0"
    "trace (sample_world [] cs) = []" "clicks (sample_world [] cs) = cs" for cs
    by (simp_all add: sample_world_def)
  have c: "msg_chat_id (sample_msg 7 []) = 7" by (simp add: sample_msg_def)
  have f: "fixture \<noteq> []" by (simp add: fixture_def)
  have 1: "toplinks_handler ?e (sample_world [] fixture) (sample_msg 7 []) (Some ''3'') =
     (Returned, (sample_world [] fixture)\<lparr>db_ops := 1, send_ops := 1,
        trace := [Sent 7 (TopLinksReply 3 [(''A'', 5), (''B'', 3), (''C'', 3)])]\<rparr>)"
    using toplinks_rows [OF refl, of 3 fixture "[]" "Some ''3''" ?e "sample_msg 7 []"
        "sample_world [] fixture"] a
    by (simp add: o p w c f fixture_top3)
  have 2: "toplinks_handler ?e (sample_world [] []) (sample_msg 7 []) None =
     (Returned, (sample_world [] [])\<lparr>db_ops := 1, send_ops := 1, trace := [Sent 7 NoClicks]\<rparr>)"
    using toplinks_rows [OF refl, of 10 "[]" "[]" None ?e "sample_msg 7 []" "sample_world [] []"] a
    by (simp add: o p w c)
  show ?thesis using 1 2 by simp
qed

section \<open>/broadcast\<close>







end
